theory Spec2Isabelle
  imports Complex_Main "HOL-Library.AList" "HOL-Library.Sublist"
begin


section \<open>Python strings\<close>

text \<open>
  Texts are lists of characters. The operations below are the ones of Python's
  \<open>str\<close> that the agents use: \<open>strip\<close>, \<open>startswith\<close>, \<open>endswith\<close>,
  \<open>find\<close>, \<open>rfind\<close>, \<open>lower\<close>, the \<open>in\<close> test and slicing with
  non-negative bounds. A character is a code point below 256. \<open>is_space\<close> holds
  of the code points below 256 that \<open>str.isspace\<close> holds of, which are the ones
  \<open>strip\<close> removes: 9 to 13, 28 to 32, 133 (next line) and 160 (no-break
  space). \<open>lower\<close> maps \<open>A\<close>..\<open>Z\<close> to \<open>a\<close>..\<open>z\<close> and the capital letters
  192 to 222 (but the multiplication sign 215) to the code point 32 above.
\<close>

definition is_space :: "char \<Rightarrow> bool" where
  "is_space c = (c \<in> set [CHR '' '', CHR 0x09, CHR 0x0A, CHR 0x0B, CHR 0x0C, CHR 0x0D,
                            CHR 0x1C, CHR 0x1D, CHR 0x1E, CHR 0x1F, CHR 0x85, CHR 0xA0])"

definition strip :: "string \<Rightarrow> string" where
  "strip s = rev (dropWhile is_space (rev (dropWhile is_space s)))"

definition startswith :: "string \<Rightarrow> string \<Rightarrow> bool" where
  "startswith s p = (take (length p) s = p)"

definition endswith :: "string \<Rightarrow> string \<Rightarrow> bool" where
  "endswith s p = (length p \<le> length s \<and> drop (length s - length p) s = p)"

fun contains :: "string \<Rightarrow> string \<Rightarrow> bool" where
  "contains [] sub = (sub = [])"
| "contains (c # cs) sub = (startswith (c # cs) sub \<or> contains cs sub)"

definition lower_char :: "char \<Rightarrow> char" where
  "lower_char c =
     (case map_of
        (zip (''ABCDEFGHIJKLMNOPQRSTUVWXYZ'' @
              [CHR 0xC0, CHR 0xC1, CHR 0xC2, CHR 0xC3, CHR 0xC4, CHR 0xC5, CHR 0xC6, CHR 0xC7,
               CHR 0xC8, CHR 0xC9, CHR 0xCA, CHR 0xCB, CHR 0xCC, CHR 0xCD, CHR 0xCE, CHR 0xCF,
               CHR 0xD0, CHR 0xD1, CHR 0xD2, CHR 0xD3, CHR 0xD4, CHR 0xD5, CHR 0xD6,
               CHR 0xD8, CHR 0xD9, CHR 0xDA, CHR 0xDB, CHR 0xDC, CHR 0xDD, CHR 0xDE])
             (''abcdefghijklmnopqrstuvwxyz'' @
              [CHR 0xE0, CHR 0xE1, CHR 0xE2, CHR 0xE3, CHR 0xE4, CHR 0xE5, CHR 0xE6, CHR 0xE7,
               CHR 0xE8, CHR 0xE9, CHR 0xEA, CHR 0xEB, CHR 0xEC, CHR 0xED, CHR 0xEE, CHR 0xEF,
               CHR 0xF0, CHR 0xF1, CHR 0xF2, CHR 0xF3, CHR 0xF4, CHR 0xF5, CHR 0xF6,
               CHR 0xF8, CHR 0xF9, CHR 0xFA, CHR 0xFB, CHR 0xFC, CHR 0xFD, CHR 0xFE])) c of
        Some l \<Rightarrow> l
      | None \<Rightarrow> c)"

definition lower :: "string \<Rightarrow> string" where
  "lower s = map lower_char s"

definition str_find :: "string \<Rightarrow> char \<Rightarrow> int" where
  "str_find s c = (if c \<in> set s then int (length (takeWhile (\<lambda>x. x \<noteq> c) s)) else - 1)"

definition str_rfind :: "string \<Rightarrow> char \<Rightarrow> int" where
  "str_rfind s c = (if c \<in> set s
                    then int (length s) - 1 - int (length (takeWhile (\<lambda>x. x \<noteq> c) (rev s)))
                    else - 1)"

definition slice :: "string \<Rightarrow> int \<Rightarrow> int \<Rightarrow> string" where
  \<comment> \<open>\<open>s[a:b]\<close> for \<open>0 \<le> a\<close> and \<open>0 \<le> b\<close>\<close>
  "slice s a b = take (nat (b - a)) (drop (nat a) s)"

definition strip_fences :: "string \<Rightarrow> string" where
  \<comment> \<open>the fence-stripping lines shared by the three agents\<close>
  "strip_fences response =
     (let r0 = strip response;
          r1 = (if startswith r0 ''```json'' then drop 7 r0 else r0);
          r2 = (if startswith r1 ''```'' then drop 3 r1 else r1);
          r3 = (if endswith r2 ''```'' then take (length r2 - 3) r2 else r2)
      in strip r3)"

section \<open>Python numbers\<close>

text \<open>
  A \<open>float\<close> is a finite value, an infinity or NaN. The finite values are
  rationals: every double is one, and nothing below depends on which rationals are
  doubles. \<open>float_gt a b\<close> is \<open>a > b\<close> and \<open>float_ge a b\<close> is \<open>a >= b\<close>:
  both are false when either side is NaN. An \<open>int\<close> is unbounded, and Python
  compares an \<open>int\<close> with a \<open>float\<close> by value, so in a comparison the integer
  \<open>i\<close> stands as \<open>Finite (of_int i)\<close>.
\<close>

datatype pyfloat = Finite rat | PosInf | NegInf | NaN

fun float_gt :: "pyfloat \<Rightarrow> pyfloat \<Rightarrow> bool" where
  "float_gt (Finite a) (Finite b) = (b < a)"
| "float_gt (Finite a) NegInf = True"
| "float_gt PosInf (Finite b) = True"
| "float_gt PosInf NegInf = True"
| "float_gt a b = False"

fun float_ge :: "pyfloat \<Rightarrow> pyfloat \<Rightarrow> bool" where
  "float_ge (Finite a) (Finite b) = (b \<le> a)"
| "float_ge (Finite a) NegInf = True"
| "float_ge PosInf (Finite b) = True"
| "float_ge PosInf NegInf = True"
| "float_ge PosInf PosInf = True"
| "float_ge NegInf NegInf = True"
| "float_ge a b = False"

section \<open>JSON values and exceptions\<close>

text \<open>
  What \<open>json.loads\<close> returns: \<open>None\<close>, a \<open>bool\<close>, an \<open>int\<close>, a
  \<open>float\<close> (also for \<open>NaN\<close>, \<open>Infinity\<close> and a literal too large for a
  double), a \<open>str\<close>, a \<open>list\<close> or a \<open>dict\<close>.
\<close>

datatype json =
    JNull
  | JBool bool
  | JInt int
  | JFloat pyfloat
  | JStr string
  | JArr "json list"
  | JObj "(string \<times> json) list"

datatype error =
    ValueError string
  | KeyError string
  | AttributeError
  | TypeError
  | IndexError
  | OverflowError
  | ValidationError
  | SessionError


section \<open>Data model (\<open>api/models.py\<close>)\<close>

datatype ProficiencyLevel = BEGINNER | INTERMEDIATE | ADVANCED | EXPERT

datatype Priority = CRITICAL | IMPORTANT | NICE_TO_HAVE

datatype ResourceType = COURSE | TUTORIAL | DOCUMENTATION | VIDEO | BOOK | ARTICLE

datatype AnalysisStatus = PENDING | IN_PROGRESS | COMPLETED | FAILED

record ResourceFilters =
  free_only :: bool
  max_duration_hours :: int
  resource_types :: "ResourceType list"

record ExistingSkill =
  es_skill_name :: string
  proficiency_level :: ProficiencyLevel
  years_experience :: int

record SkillGap =
  skill_name :: string
  required_level :: ProficiencyLevel
  priority :: Priority
  recommended_starting_level :: string

record Resource =
  title :: string
  url :: string
  provider :: string
  resource_type :: ResourceType
  difficulty_level :: string
  duration_hours :: pyfloat
  is_free :: bool
  rating :: "pyfloat option"
  description :: string
  tech_stack_match :: "string list"

record MarketInsights =
  demand_level :: string
  key_findings :: "string list"
  data_sources :: "string list"

record AnalysisResult =
  existing_skills :: "ExistingSkill list"
  skill_gaps :: "SkillGap list"
  tech_stack :: "string list"
  job_category :: string
  market_insights :: "MarketInsights option"

text \<open>
  A Python \<open>dict\<close> keyed by skill name is an association list:
  \<open>AList.update\<close> overwrites an existing key in place and appends a new one, as
  assignment to a \<open>dict\<close> does.
\<close>

type_synonym resource_dict = "(string \<times> Resource list) list"

record AnalysisResponse =
  job_id :: string
  status :: AnalysisStatus
  analysis_result :: "AnalysisResult option"
  curated_resources :: resource_dict
  notebooklm_generated :: "(string \<times> string) list"
  error_message :: "string option"

record AnalysisRequest =
  resume_text :: string
  job_description :: string
  target_job_title :: string
  filters :: "ResourceFilters option"

record AnalyzerInput =
  ai_resume_text :: string
  ai_job_description :: string
  ai_target_job_title :: string

section \<open>Collaborators\<close>

text \<open>
  The library functions the code calls are parameters of the model, collected in one
  record: \<open>json.loads\<close> (\<open>None\<close> for \<open>JSONDecodeError\<close>), \<open>float\<close> on an
  \<open>int\<close> (the nearest double, \<open>None\<close> for the \<open>OverflowError\<close> of an
  integer too large for a double; the format \<open>.2f\<close> converts an \<open>int\<close> the same
  way), \<open>float\<close> on a \<open>str\<close> (\<open>None\<close> for \<open>ValueError\<close>), pydantic's
  validation of a value that is neither \<open>None\<close> nor a \<open>float\<close> for the field
  \<open>rating\<close> (\<open>None\<close> for \<open>ValidationError\<close>), the construction of an
  \<open>AnalysisResult\<close> from parsed data in \<open>_convert_to_model\<close> (\<open>None\<close> when it
  raises), \<open>hashlib.sha256(...).hexdigest()\<close>, \<open>model_dump_json\<close>, and reading a
  cached document back (\<open>json.loads\<close> followed by \<open>AnalysisResult(**data)\<close>,
  \<open>None\<close> when either raises).
\<close>

record lib =
  json_loads :: "string \<Rightarrow> json option"
  float_of_int :: "int \<Rightarrow> pyfloat option"
  float_of_str :: "string \<Rightarrow> pyfloat option"
  coerce_rating :: "json \<Rightarrow> pyfloat option"
  convert_to_model :: "json \<Rightarrow> AnalysisResult option"
  sha256_hexdigest :: "string \<Rightarrow> string"
  model_dump_json :: "AnalysisResult \<Rightarrow> string"
  model_load_json :: "string \<Rightarrow> AnalysisResult option"

text \<open>
  An agent session, as the code consumes it: \<open>connect\<close> and \<open>send_message\<close> may
  raise; \<open>receive_messages\<close> yields the messages in order and, when
  \<open>stream_fails\<close>, raises once they are exhausted (a \<open>break\<close> leaves the stream
  before that). \<open>disconnect\<close> returns normally.
\<close>

datatype block = TextBlock string | OtherBlock

record message =
  role :: string
  content :: "block list"

record session =
  connect_fails :: bool
  send_fails :: bool
  messages :: "message list"
  stream_fails :: bool

section \<open>Prompt templates\<close>

text \<open>
  \<open>SYSTEM_PROMPT.format(...)\<close> replaces every brace-delimited field of the template
  by the keyword argument of that name and raises \<open>KeyError\<close> at the first field
  whose name is not a keyword. Only the fields matter for what the agents do next, so
  a template is given by its fields in the order of the text. The Analyzer's and the
  Curator's prompts both show a JSON example with unescaped braces after their
  placeholders: the text from such a brace to the next colon is read as a field name.
\<close>

definition py_format :: "string list \<Rightarrow> string list \<Rightarrow> error + unit" where
  "py_format template names =
     (case List.find (\<lambda>f. f \<notin> set names) template of
        Some f \<Rightarrow> Inl (KeyError f)
      | None \<Rightarrow> Inr ())"

definition analyzer_prompt_fields :: "string list" where
  \<comment> \<open>\<open>AnalyzerAgent.SYSTEM_PROMPT\<close>, up to the opening brace of its JSON example\<close>
  "analyzer_prompt_fields =
     [ ''job_title'', ''job_title'',
       [CHR 0x0A] @ ''    '' @ [CHR 0x22] @ ''existing_skills'' @ [CHR 0x22] ]"

definition curator_prompt_fields :: "string list" where
  \<comment> \<open>\<open>CuratorAgent.SYSTEM_PROMPT\<close>, up to the opening brace of its JSON example\<close>
  "curator_prompt_fields =
     [ ''skill_name'', ''level'', ''skill_name'', ''skill_name'', ''skill_name'',
       [CHR 0x0A] @ ''        '' @ [CHR 0x22] @ ''title'' @ [CHR 0x22] ]"

section \<open>Structured-output extraction (\<open>AnalyzerAgent._extract_json_with_fallback\<close>)\<close>

fun brace_scan :: "string \<Rightarrow> int \<Rightarrow> int \<Rightarrow> int" where
  \<comment> \<open>the \<open>for i in range(start_idx, len(response))\<close> loop: the rest of the text,
      \<open>brace_count\<close>, \<open>i\<close>; the result is \<open>end_idx\<close>\<close>
  "brace_scan [] brace_count i = - 1"
| "brace_scan (c # cs) brace_count i =
     (if c = CHR ''{'' then brace_scan cs (brace_count + 1) (i + 1)
      else if c = CHR ''}'' then
        (if brace_count - 1 = 0 then i + 1 else brace_scan cs (brace_count - 1) (i + 1))
      else brace_scan cs brace_count (i + 1))"

definition json_object_span :: "string \<Rightarrow> string option" where
  \<comment> \<open>\<open>json_text\<close> of the cleaned response, when the scan finds one\<close>
  "json_object_span response =
     (if CHR ''{'' \<in> set response then
        (let start_idx = str_find response CHR ''{'';
             end_idx = brace_scan (drop (nat start_idx) response) 0 start_idx
         in if end_idx > start_idx then Some (slice response start_idx end_idx) else None)
      else None)"

definition extract_json_with_fallback :: "lib \<Rightarrow> string \<Rightarrow> error + json" where
  "extract_json_with_fallback L response =
     (case json_object_span (strip_fences response) of
        Some json_text \<Rightarrow>
          (case json_loads L json_text of
             None \<Rightarrow> Inl (ValueError ''Invalid JSON in response'')
           | Some data \<Rightarrow> Inr data)
      | None \<Rightarrow> Inl (ValueError ''No JSON object found in response''))"


section \<open>Resource normalizer (\<open>CuratorAgent._convert_to_resources\<close>)\<close>

definition dict_get :: "(string \<times> json) list \<Rightarrow> string \<Rightarrow> json option" where
  "dict_get d k = map_of d k"

definition str_field :: "(string \<times> json) list \<Rightarrow> string \<Rightarrow> string \<Rightarrow> error + string" where
  \<comment> \<open>\<open>item.get(k, dflt)\<close> followed by a \<open>str\<close> method: anything but a string
      has no such method\<close>
  "str_field d k dflt =
     (case dict_get d k of
        None \<Rightarrow> Inr dflt
      | Some (JStr s) \<Rightarrow> Inr s
      | Some _ \<Rightarrow> Inl AttributeError)"

definition ResourceType_of :: "string \<Rightarrow> ResourceType option" where
  \<comment> \<open>\<open>ResourceType(s)\<close>; \<open>None\<close> is its \<open>ValueError\<close>\<close>
  "ResourceType_of s =
     (if s = ''course'' then Some COURSE
      else if s = ''tutorial'' then Some TUTORIAL
      else if s = ''documentation'' then Some DOCUMENTATION
      else if s = ''video'' then Some VIDEO
      else if s = ''book'' then Some BOOK
      else if s = ''article'' then Some ARTICLE
      else None)"

definition py_float :: "lib \<Rightarrow> json \<Rightarrow> error + pyfloat" where
  \<comment> \<open>\<open>float(x)\<close>\<close>
  "py_float L x =
     (case x of
        JInt i \<Rightarrow> (case float_of_int L i of None \<Rightarrow> Inl OverflowError | Some f \<Rightarrow> Inr f)
      | JFloat f \<Rightarrow> Inr f
      | JBool b \<Rightarrow> Inr (Finite (if b then 1 else 0))
      | JStr s \<Rightarrow>
          (case float_of_str L s of
             None \<Rightarrow> Inl (ValueError ''could not convert string to float'')
           | Some f \<Rightarrow> Inr f)
      | _ \<Rightarrow> Inl TypeError)"

definition duration_of :: "lib \<Rightarrow> (string \<times> json) list \<Rightarrow> error + pyfloat" where
  \<comment> \<open>\<open>float(item.get("duration_hours", 10.0))\<close> under
      \<open>except (ValueError, TypeError)\<close>: any other exception leaves the block\<close>
  "duration_of L d =
     (case dict_get d ''duration_hours'' of
        None \<Rightarrow> Inr (Finite 10)
      | Some x \<Rightarrow>
          (case py_float L x of
             Inr f \<Rightarrow> Inr f
           | Inl (ValueError m) \<Rightarrow> Inr (Finite 10)
           | Inl TypeError \<Rightarrow> Inr (Finite 10)
           | Inl e \<Rightarrow> Inl e))"

definition py_bool :: "json \<Rightarrow> bool" where
  "py_bool x =
     (case x of
        JNull \<Rightarrow> False
      | JBool b \<Rightarrow> b
      | JInt i \<Rightarrow> i \<noteq> 0
      | JFloat f \<Rightarrow> f \<noteq> Finite 0
      | JStr s \<Rightarrow> s \<noteq> []
      | JArr xs \<Rightarrow> xs \<noteq> []
      | JObj kv \<Rightarrow> kv \<noteq> [])"

definition rating_of :: "lib \<Rightarrow> json option \<Rightarrow> error + pyfloat option" where
  \<comment> \<open>the \<open>Optional[float]\<close> field \<open>rating\<close> of \<open>Resource\<close>, given
      \<open>item.get("rating")\<close>: \<open>None\<close> and a \<open>float\<close> are taken as they
      are, anything else goes through pydantic's validation\<close>
  "rating_of L x =
     (case x of
        None \<Rightarrow> Inr None
      | Some JNull \<Rightarrow> Inr None
      | Some (JFloat f) \<Rightarrow> Inr (Some f)
      | Some v \<Rightarrow> (case coerce_rating L v of None \<Rightarrow> Inl ValidationError | Some f \<Rightarrow> Inr (Some f)))"

definition difficulty_of :: "(string \<times> json) list \<Rightarrow> SkillGap \<Rightarrow> error + string" where
  \<comment> \<open>the \<open>str\<close> field \<open>difficulty_level\<close> of \<open>Resource\<close>\<close>
  "difficulty_of d gap =
     (case dict_get d ''difficulty_level'' of
        None \<Rightarrow> Inr (recommended_starting_level gap)
      | Some (JStr s) \<Rightarrow> Inr s
      | Some _ \<Rightarrow> Inl ValidationError)"

definition make_resource :: "lib \<Rightarrow> json \<Rightarrow> SkillGap \<Rightarrow> error + Resource option" where
  \<comment> \<open>the loop body up to the construction of the \<open>Resource\<close>: \<open>Inr None\<close> is a
      \<open>continue\<close>, \<open>Inl\<close> an exception (which the loop catches)\<close>
  "make_resource L item gap =
     (case item of
        JObj d \<Rightarrow>
          (case str_field d ''title'' [] of Inl e \<Rightarrow> Inl e | Inr title0 \<Rightarrow>
           case str_field d ''url'' [] of Inl e \<Rightarrow> Inl e | Inr url0 \<Rightarrow>
           if strip title0 = [] \<or> strip url0 = [] then Inr None else
           case str_field d ''resource_type'' ''tutorial'' of Inl e \<Rightarrow> Inl e | Inr type_str \<Rightarrow>
           case duration_of L d of Inl e \<Rightarrow> Inl e | Inr duration \<Rightarrow>
           case str_field d ''provider'' ''Unknown'' of Inl e \<Rightarrow> Inl e | Inr provider0 \<Rightarrow>
           case difficulty_of d gap of Inl e \<Rightarrow> Inl e | Inr level \<Rightarrow>
           case rating_of L (dict_get d ''rating'') of Inl e \<Rightarrow> Inl e | Inr rating0 \<Rightarrow>
           case str_field d ''description'' [] of Inl e \<Rightarrow> Inl e | Inr description0 \<Rightarrow>
           Inr (Some \<lparr>
             title = strip title0,
             url = strip url0,
             provider = (if strip provider0 = [] then ''Unknown'' else strip provider0),
             resource_type =
               (case ResourceType_of (lower type_str) of None \<Rightarrow> TUTORIAL | Some t \<Rightarrow> t),
             difficulty_level = level,
             duration_hours = duration,
             is_free = (case dict_get d ''is_free'' of None \<Rightarrow> True | Some x \<Rightarrow> py_bool x),
             rating = rating0,
             description = strip description0,
             tech_stack_match = [skill_name gap] \<rparr>))
      | _ \<Rightarrow> Inr None)"

definition passes_filters :: "ResourceFilters \<Rightarrow> Resource \<Rightarrow> bool" where
  \<comment> \<open>none of the three \<open>continue\<close>s after the construction fires\<close>
  "passes_filters flt r =
     (\<not> (free_only flt \<and> \<not> is_free r)
      \<and> \<not> float_gt (duration_hours r) (Finite (of_int (max_duration_hours flt)))
      \<and> \<not> (resource_type r \<notin> set (resource_types flt)))"

fun convert_loop :: "lib \<Rightarrow> json list \<Rightarrow> SkillGap \<Rightarrow> ResourceFilters \<Rightarrow> Resource list \<Rightarrow> Resource list" where
  "convert_loop L [] gap flt resources = resources"
| "convert_loop L (item # items) gap flt resources =
     convert_loop L items gap flt
       (case make_resource L item gap of
          Inr (Some r) \<Rightarrow> (if passes_filters flt r then resources @ [r] else resources)
        | Inr None \<Rightarrow> resources
        | Inl e \<Rightarrow> resources)"

definition convert_to_resources :: "lib \<Rightarrow> json list \<Rightarrow> SkillGap \<Rightarrow> ResourceFilters \<Rightarrow> Resource list" where
  "convert_to_resources L json_data gap flt = convert_loop L json_data gap flt []"

section \<open>Static fallback data (\<open>ParallelTaskAPI._get_mock_resources\<close>)\<close>

definition get_mock_resources :: "string \<Rightarrow> string \<Rightarrow> json list" where
  "get_mock_resources skill level =
     (let skill_lower = lower skill in
      [ JObj [ (''title'', JStr (skill @ '' for Beginners - Complete Guide'')),
               (''url'', JStr (''https://www.udemy.com/course/'' @ skill_lower @ ''-beginners'')),
               (''description'', JStr (''Comprehensive '' @ skill @ '' course covering fundamentals to advanced concepts'')),
               (''provider'', JStr ''Udemy''),
               (''type'', JStr ''course''),
               (''difficulty'', JStr level),
               (''is_free'', JBool False),
               (''reasoning'', JStr ''Highly rated comprehensive course''),
               (''confidence'', JFloat (Finite (9 / 10))) ],
        JObj [ (''title'', JStr (''Learn '' @ skill @ '' - Free Interactive Tutorial'')),
               (''url'', JStr (''https://www.freecodecamp.org/learn/'' @ skill_lower)),
               (''description'', JStr (''Free interactive '' @ skill @ '' tutorial with hands-on exercises'')),
               (''provider'', JStr ''freeCodeCamp''),
               (''type'', JStr ''tutorial''),
               (''difficulty'', JStr level),
               (''is_free'', JBool True),
               (''reasoning'', JStr ''Interactive learning with practical examples''),
               (''confidence'', JFloat (Finite (85 / 100))) ],
        JObj [ (''title'', JStr (skill @ '' Tutorial for Beginners'')),
               (''url'', JStr (''https://www.youtube.com/results?search_query='' @ skill_lower @ ''+tutorial'')),
               (''description'', JStr (''Step-by-step '' @ skill @ '' video tutorial for beginners'')),
               (''provider'', JStr ''YouTube''),
               (''type'', JStr ''video''),
               (''difficulty'', JStr level),
               (''is_free'', JBool True),
               (''reasoning'', JStr ''Visual learning with practical demonstrations''),
               (''confidence'', JFloat (Finite (8 / 10))) ],
        JObj [ (''title'', JStr (skill @ '' Complete Course'')),
               (''url'', JStr (''https://www.coursera.org/learn/'' @ skill_lower)),
               (''description'', JStr (''University-level '' @ skill @ '' course with certificate'')),
               (''provider'', JStr ''Coursera''),
               (''type'', JStr ''course''),
               (''difficulty'', JStr level),
               (''is_free'', JBool True),
               (''reasoning'', JStr ''Academic quality with structured curriculum''),
               (''confidence'', JFloat (Finite (88 / 100))) ] ])"

section \<open>Curator (\<open>CuratorAgent\<close>)\<close>

text \<open>
  What one per-skill task meets: its agent session; the search client it finds in
  \<open>self.parallel_api\<close> (\<open>None\<close> when there is none, otherwise the outcome of
  \<open>search_educational_resources\<close>); and whether building a \<open>ParallelTaskAPI\<close>
  in the last tier raises. The client the last tier stores in \<open>self.parallel_api\<close>
  is what a later task finds there.
\<close>

record task_env =
  task_session :: session
  parallel_api :: "(error + json list) option"
  api_ctor_fails :: bool

datatype tier = Autonomous | SearchAPI | StaticFallback

definition curator_block :: "lib \<Rightarrow> string \<Rightarrow> json list option" where
  \<comment> \<open>one text block: \<open>Some parsed\<close> when it sets \<open>final_json\<close>\<close>
  "curator_block L block_text =
     (let text = strip_fences block_text in
      if CHR ''['' \<in> set text then
        (let start_idx = str_find text CHR ''['';
             end_idx = str_rfind text CHR '']'' + 1
         in if start_idx \<ge> 0 \<and> end_idx > start_idx then
              (case json_loads L (slice text start_idx end_idx) of
                 Some (JArr parsed) \<Rightarrow> (if length parsed > 0 then Some parsed else None)
               | _ \<Rightarrow> None)
            else None)
      else None)"

fun curator_blocks :: "lib \<Rightarrow> block list \<Rightarrow> json list option" where
  "curator_blocks L [] = None"
| "curator_blocks L (TextBlock t # bs) =
     (case curator_block L t of Some parsed \<Rightarrow> Some parsed | None \<Rightarrow> curator_blocks L bs)"
| "curator_blocks L (OtherBlock # bs) = curator_blocks L bs"

fun curator_stream :: "lib \<Rightarrow> message list \<Rightarrow> bool \<Rightarrow> error + json list option" where
  "curator_stream L [] fails = (if fails then Inl SessionError else Inr None)"
| "curator_stream L (m # ms) fails =
     (if role m = ''assistant'' then
        (case curator_blocks L (content m) of
           Some parsed \<Rightarrow> Inr (Some parsed)
         | None \<Rightarrow> curator_stream L ms fails)
      else curator_stream L ms fails)"

definition curator_session :: "lib \<Rightarrow> session \<Rightarrow> error + json list option" where
  \<comment> \<open>\<open>connect\<close>, the options with the formatted system prompt,
      \<open>send_message\<close> and the message loop: \<open>final_json\<close>\<close>
  "curator_session L s =
     (if connect_fails s then Inl SessionError
      else
        case py_format curator_prompt_fields [''skill_name'', ''level''] of
          Inl e \<Rightarrow> Inl e
        | Inr u \<Rightarrow>
            (if send_fails s then Inl SessionError
             else curator_stream L (messages s) (stream_fails s)))"

definition curator_fallbacks ::
  "lib \<Rightarrow> task_env \<Rightarrow> SkillGap \<Rightarrow> ResourceFilters \<Rightarrow> tier list \<times> (error + Resource list)" where
  \<comment> \<open>the search-API tier and the static tier, as both branches of
      \<open>_curate_for_skill\<close> write them; the first component lists the tiers entered\<close>
  "curator_fallbacks L env gap flt =
     (let static =
            (if parallel_api env = None \<and> api_ctor_fails env then Inl SessionError
             else Inr (convert_to_resources L
                         (get_mock_resources (skill_name gap) (recommended_starting_level gap)) gap flt))
      in case parallel_api env of
           None \<Rightarrow> ([StaticFallback], static)
         | Some (Inl e) \<Rightarrow> ([SearchAPI, StaticFallback], static)
         | Some (Inr api_results) \<Rightarrow>
             (let resources = convert_to_resources L api_results gap flt
              in if resources \<noteq> [] then ([SearchAPI], Inr resources)
                 else ([SearchAPI, StaticFallback], static)))"

definition curate_for_skill ::
  "lib \<Rightarrow> task_env \<Rightarrow> SkillGap \<Rightarrow> string list \<Rightarrow> ResourceFilters \<Rightarrow> tier list \<times> (error + Resource list)" where
  "curate_for_skill L env gap stack flt =
     (case curator_session L (task_session env) of
        Inr (Some final_json) \<Rightarrow> ([Autonomous], Inr (convert_to_resources L final_json gap flt))
      | Inr None \<Rightarrow>
          (case curator_fallbacks L env gap flt of
             (tiers, Inr resources) \<Rightarrow> (Autonomous # tiers, Inr resources)
           | (tiers, Inl e) \<Rightarrow>
               (let (tiers', r) = curator_fallbacks L env gap flt
                in (Autonomous # tiers @ tiers', r)))
      | Inl e \<Rightarrow>
          (let (tiers, r) = curator_fallbacks L env gap flt in (Autonomous # tiers, r)))"

fun compile_results :: "(SkillGap \<times> (error + Resource list)) list \<Rightarrow> resource_dict \<Rightarrow> resource_dict" where
  \<comment> \<open>the loop over \<open>zip(skill_gaps, results)\<close>\<close>
  "compile_results [] curated = curated"
| "compile_results ((gap, result) # rest) curated =
     compile_results rest
       (AList.update (skill_name gap) (case result of Inl e \<Rightarrow> [] | Inr resources \<Rightarrow> resources) curated)"

definition curate_resources ::
  "lib \<Rightarrow> (nat \<Rightarrow> task_env) \<Rightarrow> SkillGap list \<Rightarrow> string list \<Rightarrow> ResourceFilters option
     \<Rightarrow> error + resource_dict" where
  \<comment> \<open>task \<open>i\<close> (for the \<open>i\<close>-th skill gap) runs in \<open>envs i\<close>; \<open>filters\<close> is
      read before any task starts, so \<open>None\<close> raises there\<close>
  "curate_resources L envs gaps stack flt_opt =
     (case flt_opt of
        None \<Rightarrow> Inl AttributeError
      | Some flt \<Rightarrow>
          (let results = map (\<lambda>(i, gap). snd (curate_for_skill L (envs i) gap stack flt))
                             (enumerate 0 gaps)
           in Inr (compile_results (zip gaps results) [])))"

section \<open>Judge (\<open>JudgeAgent\<close>)\<close>

record JudgeAgent =
  relevance_threshold :: pyfloat
  validate_top_n :: nat

definition judge_json_str :: "string \<Rightarrow> string option" where
  \<comment> \<open>\<open>json_str\<close> of a text block, when the block yields one\<close>
  "judge_json_str block_text =
     (let text = strip_fences block_text in
      if CHR ''{'' \<in> set text then
        (let start_idx = str_find text CHR ''{'';
             end_idx = str_rfind text CHR ''}'' + 1
         in if start_idx \<ge> 0 \<and> end_idx > start_idx
            then Some (slice text start_idx end_idx) else None)
      else None)"

definition judge_block :: "lib \<Rightarrow> string \<Rightarrow> (string \<times> json) list option" where
  \<comment> \<open>one text block: \<open>Some parsed\<close> when it sets \<open>final_judgement\<close>. The span
      starts with a brace, so \<open>json.loads\<close> gives an object or raises.\<close>
  "judge_block L block_text =
     (if CHR ''{'' \<in> set block_text then
        (case judge_json_str block_text of
           None \<Rightarrow> None
         | Some json_str \<Rightarrow>
             (case json_loads L json_str of
                Some (JObj parsed) \<Rightarrow>
                  (if dict_get parsed ''relevance_score'' \<noteq> None then Some parsed else None)
              | _ \<Rightarrow> None))
      else None)"

fun judge_blocks :: "lib \<Rightarrow> block list \<Rightarrow> (string \<times> json) list option" where
  "judge_blocks L [] = None"
| "judge_blocks L (TextBlock t # bs) =
     (case judge_block L t of Some parsed \<Rightarrow> Some parsed | None \<Rightarrow> judge_blocks L bs)"
| "judge_blocks L (OtherBlock # bs) = judge_blocks L bs"

fun judge_stream :: "lib \<Rightarrow> message list \<Rightarrow> bool \<Rightarrow> error + (string \<times> json) list option" where
  "judge_stream L [] fails = (if fails then Inl SessionError else Inr None)"
| "judge_stream L (m # ms) fails =
     (if role m = ''assistant'' then
        (case judge_blocks L (content m) of
           Some parsed \<Rightarrow> Inr (Some parsed)
         | None \<Rightarrow> judge_stream L ms fails)
      else judge_stream L ms fails)"

definition judge_session :: "lib \<Rightarrow> session \<Rightarrow> error + (string \<times> json) list option" where
  \<comment> \<open>the \<open>try\<close> body of \<open>_autonomous_validate\<close>\<close>
  "judge_session L s =
     (if connect_fails s then Inl SessionError
      else if send_fails s then Inl SessionError
      else judge_stream L (messages s) (stream_fails s))"

definition autonomous_validate :: "lib \<Rightarrow> session \<Rightarrow> (string \<times> json) list option" where
  "autonomous_validate L s =
     (case judge_session L s of Inl e \<Rightarrow> None | Inr final_judgement \<Rightarrow> final_judgement)"

definition score_formats :: "lib \<Rightarrow> json \<Rightarrow> bool" where
  \<comment> \<open>whether the format \<open>{score:.2f}\<close> of the log line succeeds: it does on a
      \<open>float\<close>, on a \<open>bool\<close> and on an \<open>int\<close> that converts to a
      \<open>float\<close>, and raises on anything else\<close>
  "score_formats L score =
     (case score of
        JFloat f \<Rightarrow> True
      | JBool b \<Rightarrow> True
      | JInt i \<Rightarrow> float_of_int L i \<noteq> None
      | _ \<Rightarrow> False)"

definition score_value :: "json \<Rightarrow> pyfloat" where
  \<comment> \<open>a score that formats, as the comparison with the threshold takes it\<close>
  "score_value score =
     (case score of
        JFloat f \<Rightarrow> f
      | JInt i \<Rightarrow> Finite (of_int i)
      | JBool b \<Rightarrow> Finite (if b then 1 else 0)
      | _ \<Rightarrow> NaN)"

definition reasoning_slices :: "json option \<Rightarrow> bool" where
  \<comment> \<open>whether \<open>judgement.get('reasoning', 'No reason provided')[:100]\<close> succeeds\<close>
  "reasoning_slices x =
     (case x of None \<Rightarrow> True | Some (JStr s) \<Rightarrow> True | Some (JArr xs) \<Rightarrow> True | Some _ \<Rightarrow> False)"

definition judge_one ::
  "lib \<Rightarrow> JudgeAgent \<Rightarrow> (string \<times> json) list option \<Rightarrow> Resource \<Rightarrow> Resource list
     \<Rightarrow> Resource list" where
  \<comment> \<open>one turn of the loop over \<open>resources_to_validate\<close>, from the judgement on:
      \<open>validated_resources\<close> after it. An exception of a log line is caught by the
      loop's handler, which appends the resource.\<close>
  "judge_one L J judgement resource validated =
     (case judgement of
        None \<Rightarrow> validated @ [resource]
      | Some j \<Rightarrow>
          if j = [] then validated @ [resource]
          else
            (let score = (case dict_get j ''relevance_score'' of
                            None \<Rightarrow> JFloat (Finite 0)
                          | Some v \<Rightarrow> v) in
             if \<not> score_formats L score then validated @ [resource]
             else if float_ge (score_value score) (relevance_threshold J) then
               (if reasoning_slices (dict_get j ''reasoning'')
                then validated @ [resource]
                else (validated @ [resource]) @ [resource])
             else
               (if reasoning_slices (dict_get j ''reasoning'')
                then validated
                else validated @ [resource])))"

fun judge_loop ::
  "lib \<Rightarrow> JudgeAgent \<Rightarrow> (nat \<Rightarrow> session) \<Rightarrow> nat \<Rightarrow> Resource list \<Rightarrow> Resource list \<Rightarrow> Resource list" where
  "judge_loop L J sessions i [] validated = validated"
| "judge_loop L J sessions i (resource # rest) validated =
     judge_loop L J sessions (Suc i) rest
       (judge_one L J (autonomous_validate L (sessions i)) resource validated)"

definition validate_resources ::
  "lib \<Rightarrow> JudgeAgent \<Rightarrow> (nat \<Rightarrow> session) \<Rightarrow> SkillGap \<Rightarrow> Resource list \<Rightarrow> Resource list" where
  \<comment> \<open>the \<open>i\<close>-th tested resource is validated in session \<open>sessions i\<close>\<close>
  "validate_resources L J sessions gap resources =
     (if resources = [] then []
      else
        (let validated = judge_loop L J sessions 0 (take (validate_top_n J) resources) []
         in if length resources > validate_top_n J
            then validated @ drop (validate_top_n J) resources
            else validated))"

section \<open>Analyzer (\<open>AnalyzerAgent\<close>)\<close>

definition SkillGap_of :: "string \<Rightarrow> ProficiencyLevel \<Rightarrow> Priority \<Rightarrow> string \<Rightarrow> SkillGap" where
  "SkillGap_of n lv pr start =
     \<lparr> skill_name = n, required_level = lv, priority = pr, recommended_starting_level = start \<rparr>"

definition generate_mock_analysis :: "AnalyzerInput \<Rightarrow> AnalysisResult" where
  "generate_mock_analysis input_data =
     (let job_title_lower = lower (ai_target_job_title input_data);
          mock_gaps =
            (if contains job_title_lower ''cloud'' \<or> contains job_title_lower ''infrastructure'' then
               [ SkillGap_of ''AWS/Cloud Platforms'' ADVANCED CRITICAL ''intermediate'',
                 SkillGap_of ''Kubernetes'' ADVANCED CRITICAL ''intermediate'',
                 SkillGap_of ''Infrastructure as Code'' INTERMEDIATE IMPORTANT ''beginner'',
                 SkillGap_of ''Docker'' INTERMEDIATE IMPORTANT ''beginner'',
                 SkillGap_of ''System Performance Optimization'' ADVANCED CRITICAL ''intermediate'' ]
             else if contains job_title_lower ''data'' then
               [ SkillGap_of ''SQL'' ADVANCED CRITICAL ''intermediate'',
                 SkillGap_of ''Python Data Science'' ADVANCED CRITICAL ''intermediate'',
                 SkillGap_of ''Machine Learning'' INTERMEDIATE IMPORTANT ''beginner'' ]
             else
               [ SkillGap_of ''System Design'' ADVANCED CRITICAL ''intermediate'',
                 SkillGap_of ''Algorithms'' INTERMEDIATE IMPORTANT ''beginner'' ])
      in \<lparr> existing_skills =
             [ \<lparr> es_skill_name = ''Python'', proficiency_level = INTERMEDIATE, years_experience = 3 \<rparr>,
               \<lparr> es_skill_name = ''Git'', proficiency_level = INTERMEDIATE, years_experience = 5 \<rparr> ],
           skill_gaps = mock_gaps,
           tech_stack = [''Python'', ''Cloud'', ''DevOps''],
           job_category = ai_target_job_title input_data,
           market_insights = None \<rparr>)"

fun analyzer_blocks :: "block list \<Rightarrow> string option" where
  \<comment> \<open>the first text block with a brace in it\<close>
  "analyzer_blocks [] = None"
| "analyzer_blocks (TextBlock t # bs) = (if CHR ''{'' \<in> set t then Some t else analyzer_blocks bs)"
| "analyzer_blocks (OtherBlock # bs) = analyzer_blocks bs"

fun analyzer_stream ::
  "message list \<Rightarrow> bool \<Rightarrow> string option \<Rightarrow> message list \<Rightarrow> error + (string option \<times> message list)" where
  \<comment> \<open>the message loop with \<open>final_response\<close> and \<open>agent_actions\<close>\<close>
  "analyzer_stream [] fails final_response agent_actions =
     (if fails then Inl SessionError else Inr (final_response, agent_actions))"
| "analyzer_stream (m # ms) fails final_response agent_actions =
     (let final_response' =
            (if role m = ''assistant'' then
               (case analyzer_blocks (content m) of Some t \<Rightarrow> Some t | None \<Rightarrow> final_response)
             else final_response);
          agent_actions' = (if role m = ''assistant'' then agent_actions @ [m] else agent_actions)
      in if (case final_response' of
               Some t \<Rightarrow> t \<noteq> [] \<and> contains t ''existing_skills''
             | None \<Rightarrow> False)
         then Inr (final_response', agent_actions')
         else analyzer_stream ms fails final_response' agent_actions')"

definition last_action_text :: "message list \<Rightarrow> error + string" where
  \<comment> \<open>\<open>agent_actions[-1].content[0].text if agent_actions else ""\<close>\<close>
  "last_action_text agent_actions =
     (if agent_actions = [] then Inr []
      else (case content (last agent_actions) of
              [] \<Rightarrow> Inl IndexError
            | TextBlock t # bs \<Rightarrow> Inr t
            | OtherBlock # bs \<Rightarrow> Inl AttributeError))"

definition log_market_insights :: "AnalysisResult \<Rightarrow> error + unit" where
  \<comment> \<open>the two log lines under \<open>hasattr(result, 'market_insights')\<close>: the field
      always exists, and neither \<open>None\<close> nor a \<open>MarketInsights\<close> has a \<open>get\<close>\<close>
  "log_market_insights result =
     (case market_insights result of None \<Rightarrow> Inl AttributeError | Some mi \<Rightarrow> Inl AttributeError)"

definition analyze_body :: "lib \<Rightarrow> session \<Rightarrow> AnalyzerInput \<Rightarrow> error + AnalysisResult" where
  \<comment> \<open>the \<open>try\<close> block of \<open>analyze\<close>: \<open>connect\<close>, the options with the
      formatted system prompt, \<open>send_message\<close>, the message loop, extraction,
      conversion and the log lines\<close>
  "analyze_body L s input_data =
     (if connect_fails s then Inl SessionError
      else
        case py_format analyzer_prompt_fields [''job_title''] of
          Inl e \<Rightarrow> Inl e
        | Inr u \<Rightarrow>
        if send_fails s then Inl SessionError
        else
        case analyzer_stream (messages s) (stream_fails s) None [] of
          Inl e \<Rightarrow> Inl e
        | Inr (final_response, agent_actions) \<Rightarrow>
            (case (case final_response of
                     Some t \<Rightarrow> (if t \<noteq> [] then Inr t else last_action_text agent_actions)
                   | None \<Rightarrow> last_action_text agent_actions) of
               Inl e \<Rightarrow> Inl e
             | Inr response_text \<Rightarrow>
                 (case extract_json_with_fallback L response_text of
                    Inl e \<Rightarrow> Inl e
                  | Inr analysis_data \<Rightarrow>
                      (case convert_to_model L analysis_data of
                         None \<Rightarrow> Inl ValidationError
                       | Some result \<Rightarrow>
                           (case log_market_insights result of
                              Inl e \<Rightarrow> Inl e
                            | Inr u \<Rightarrow> Inr result)))))"

definition analyze :: "lib \<Rightarrow> session \<Rightarrow> AnalyzerInput \<Rightarrow> error + AnalysisResult" where
  \<comment> \<open>\<open>try\<close> and its \<open>except Exception\<close> handler\<close>
  "analyze L s input_data =
     (case analyze_body L s input_data of
        Inr result \<Rightarrow> Inr result
      | Inl e \<Rightarrow> Inr (generate_mock_analysis input_data))"

section \<open>Cache (\<open>RedisCache\<close>)\<close>

text \<open>
  The Redis server is a map from keys to stored documents; expiry of an entry is not
  modelled. A call of the Redis client may raise, which both methods catch.
\<close>

type_synonym redis = "string \<rightharpoonup> string"

definition generate_cache_key :: "lib \<Rightarrow> string \<Rightarrow> string \<Rightarrow> string" where
  "generate_cache_key L resume jd =
     ''skill_analysis:'' @ sha256_hexdigest L (resume @ ''|'' @ jd)"

definition get_analysis :: "lib \<Rightarrow> bool \<Rightarrow> redis \<Rightarrow> string \<Rightarrow> string \<Rightarrow> AnalysisResult option" where
  \<comment> \<open>\<open>client_fails\<close>: \<open>self.client.get\<close> raises\<close>
  "get_analysis L client_fails store resume jd =
     (let cache_key = generate_cache_key L resume jd in
      if client_fails then None
      else (case store cache_key of
              None \<Rightarrow> None
            | Some cached_data \<Rightarrow>
                (if cached_data \<noteq> [] then model_load_json L cached_data else None)))"

definition cache_analysis :: "lib \<Rightarrow> bool \<Rightarrow> redis \<Rightarrow> string \<Rightarrow> string \<Rightarrow> AnalysisResult \<Rightarrow> redis" where
  \<comment> \<open>\<open>client_fails\<close>: \<open>self.client.setex\<close> raises\<close>
  "cache_analysis L client_fails store resume jd analysis =
     (let cache_key = generate_cache_key L resume jd in
      if client_fails then store
      else store(cache_key \<mapsto> model_dump_json L analysis))"

section \<open>Orchestrator (\<open>OrchestratorAgent\<close>)\<close>

record OrchestratorAgent =
  enable_judge :: bool
  enable_cache :: bool
  judge :: JudgeAgent

text \<open>
  The state a request changes: the cache, and the number of Analyzer sessions run so
  far (kept to tell whether a request ran one).
\<close>

record orch_state =
  redis_store :: redis
  analyzer_runs :: nat

text \<open>What one request meets outside the process.\<close>

record request_env =
  new_job_id :: string
  cache_get_fails :: bool
  cache_set_fails :: bool
  analyzer_session :: session
  curator_envs :: "nat \<Rightarrow> task_env"
  judge_sessions :: "nat \<Rightarrow> nat \<Rightarrow> session"

definition run_analyzer ::
  "lib \<Rightarrow> request_env \<Rightarrow> orch_state \<Rightarrow> AnalysisRequest \<Rightarrow> (error + AnalysisResult) \<times> orch_state" where
  "run_analyzer L env st request =
     (analyze L (analyzer_session env)
        \<lparr> ai_resume_text = resume_text request,
          ai_job_description = job_description request,
          ai_target_job_title = target_job_title request \<rparr>,
      st\<lparr> analyzer_runs := Suc (analyzer_runs st) \<rparr>)"

definition analysis_phase ::
  "lib \<Rightarrow> OrchestratorAgent \<Rightarrow> request_env \<Rightarrow> orch_state \<Rightarrow> AnalysisRequest
     \<Rightarrow> (error + AnalysisResult) \<times> orch_state" where
  \<comment> \<open>phase 1 up to the assignment of \<open>analysis_result\<close>\<close>
  "analysis_phase L orch env st request =
     (if enable_cache orch then
        (case get_analysis L (cache_get_fails env) (redis_store st)
                (resume_text request) (job_description request) of
           Some cached_result \<Rightarrow> (Inr cached_result, st)
         | None \<Rightarrow> run_analyzer L env st request)
      else run_analyzer L env st request)"

fun judge_phase ::
  "lib \<Rightarrow> JudgeAgent \<Rightarrow> (nat \<Rightarrow> nat \<Rightarrow> session) \<Rightarrow> SkillGap list \<Rightarrow> nat
     \<Rightarrow> resource_dict \<Rightarrow> resource_dict \<Rightarrow> resource_dict" where
  \<comment> \<open>the loop over \<open>curated_resources.items()\<close>, building
      \<open>validated_resources\<close>; \<open>k\<close> counts the entries\<close>
  "judge_phase L J sessions gaps k [] validated = validated"
| "judge_phase L J sessions gaps k ((name, resources) # rest) validated =
     judge_phase L J sessions gaps (Suc k) rest
       (AList.update name
          (if resources \<noteq> [] then
             (case List.find (\<lambda>sg. skill_name sg = name) gaps of
                Some gap \<Rightarrow> validate_resources L J (sessions k) gap resources
              | None \<Rightarrow> resources)
           else [])
          validated)"

definition process_request ::
  "lib \<Rightarrow> OrchestratorAgent \<Rightarrow> request_env \<Rightarrow> orch_state \<Rightarrow> AnalysisRequest
     \<Rightarrow> AnalysisResponse \<times> orch_state" where
  "process_request L orch env st request =
     (let response =
            \<lparr> job_id = new_job_id env, status = IN_PROGRESS, analysis_result = None,
              curated_resources = [], notebooklm_generated = [], error_message = None \<rparr>
      in case analysis_phase L orch env st request of
           (Inl e, st1) \<Rightarrow> (response\<lparr> status := FAILED \<rparr>, st1)
         | (Inr analysis, st1) \<Rightarrow>
             (let response1 = response\<lparr> analysis_result := Some analysis \<rparr>;
                  st2 = (if enable_cache orch
                         then st1\<lparr> redis_store :=
                                cache_analysis L (cache_set_fails env) (redis_store st1)
                                  (resume_text request) (job_description request) analysis \<rparr>
                         else st1)
              in case curate_resources L (curator_envs env) (skill_gaps analysis)
                        (tech_stack analysis) (filters request) of
                   Inl e \<Rightarrow> (response1\<lparr> status := FAILED \<rparr>, st2)
                 | Inr curated \<Rightarrow>
                     (let curated' =
                            (if enable_judge orch
                             then judge_phase L (judge orch) (judge_sessions env)
                                    (skill_gaps analysis) 0 curated []
                             else curated)
                      in (response1\<lparr> curated_resources := curated', status := COMPLETED \<rparr>,
                          st2))))"

section \<open>Notions of the specification, and sample collaborators\<close>

text \<open>
  The span the specification describes for objects: it starts at the first opening
  brace of the text, and the brace depth (plus one on an opening brace, minus one on a
  closing brace) is positive inside it and returns to zero at its end.
\<close>

fun brace_depth :: "string \<Rightarrow> int" where
  "brace_depth [] = 0"
| "brace_depth (c # cs) =
     (if c = CHR ''{'' then 1 else if c = CHR ''}'' then - 1 else 0) + brace_depth cs"

definition balanced_object_span :: "string \<Rightarrow> string \<Rightarrow> bool" where
  "balanced_object_span t s \<longleftrightarrow>
     (\<exists>pre post. t = pre @ s @ post \<and> CHR ''{'' \<notin> set pre \<and> s \<noteq> [] \<and> hd s = CHR ''{''
        \<and> brace_depth s = 0 \<and> (\<forall>n \<in> {1..<length s}. 0 < brace_depth (take n s)))"

text \<open>The span from the first opening brace of the text to its last closing brace.\<close>

definition first_to_last_span :: "string \<Rightarrow> string \<Rightarrow> bool" where
  "first_to_last_span t s \<longleftrightarrow>
     (\<exists>pre post. t = pre @ s @ post \<and> CHR ''{'' \<notin> set pre \<and> CHR ''}'' \<notin> set post
        \<and> s \<noteq> [] \<and> hd s = CHR ''{'' \<and> last s = CHR ''}'')"

text \<open>
  A parser that returns the text it is given, to show which span was parsed. Its
  \<open>float\<close> converts the integers below \<open>2^1024 - 2^970\<close> in absolute value, as
  Python's does, and reads no string as a number.
\<close>

definition echo_lib :: lib where
  "echo_lib =
     \<lparr> json_loads = (\<lambda>s. Some (JStr s)),
       float_of_int = (\<lambda>i. if \<bar>i\<bar> < 2 ^ 1024 - 2 ^ 970 then Some (Finite (of_int i)) else None),
       float_of_str = (\<lambda>s. None),
       coerce_rating = (\<lambda>v. None),
       convert_to_model = (\<lambda>v. None),
       sha256_hexdigest = (\<lambda>s. s),
       model_dump_json = (\<lambda>a. job_category a),
       model_load_json = (\<lambda>s. None) \<rparr>"

text \<open>
  An item has a text under a key when the value there is a string that is not blank;
  it has a non-string under a key when the key is present with any other value. Its
  duration overflows when \<open>duration_hours\<close> is an integer too large for a
  \<open>float\<close>, and its rating is rejected when \<open>rating\<close> is neither \<open>null\<close>
  nor a \<open>float\<close> and pydantic does not validate it. Building a resource raises on
  an item with a non-string under \<open>resource_type\<close>, \<open>provider\<close>,
  \<open>description\<close> or \<open>difficulty_level\<close>, a duration that overflows or a
  rating that is rejected. \<open>normalize\<close> is what one item contributes to the
  normalizer's output.
\<close>

definition has_text :: "(string \<times> json) list \<Rightarrow> string \<Rightarrow> bool" where
  "has_text d k = (case dict_get d k of Some (JStr s) \<Rightarrow> strip s \<noteq> [] | _ \<Rightarrow> False)"

definition non_string_under :: "(string \<times> json) list \<Rightarrow> string \<Rightarrow> bool" where
  "non_string_under d k =
     (case dict_get d k of None \<Rightarrow> False | Some (JStr s) \<Rightarrow> False | Some _ \<Rightarrow> True)"

definition no_number :: "lib \<Rightarrow> json \<Rightarrow> bool" where
  \<comment> \<open>the values on which \<open>float\<close> raises \<open>ValueError\<close> or \<open>TypeError\<close>\<close>
  "no_number L x =
     (case x of
        JNull \<Rightarrow> True
      | JArr xs \<Rightarrow> True
      | JObj kv \<Rightarrow> True
      | JStr s \<Rightarrow> float_of_str L s = None
      | _ \<Rightarrow> False)"

definition duration_overflows :: "lib \<Rightarrow> (string \<times> json) list \<Rightarrow> bool" where
  "duration_overflows L d =
     (case dict_get d ''duration_hours'' of Some (JInt i) \<Rightarrow> float_of_int L i = None | _ \<Rightarrow> False)"

definition rating_rejected :: "lib \<Rightarrow> (string \<times> json) list \<Rightarrow> bool" where
  "rating_rejected L d =
     (case dict_get d ''rating'' of
        None \<Rightarrow> False
      | Some JNull \<Rightarrow> False
      | Some (JFloat f) \<Rightarrow> False
      | Some v \<Rightarrow> coerce_rating L v = None)"

definition building_raises :: "lib \<Rightarrow> (string \<times> json) list \<Rightarrow> bool" where
  "building_raises L d \<longleftrightarrow>
     non_string_under d ''resource_type'' \<or> non_string_under d ''provider''
     \<or> non_string_under d ''description'' \<or> non_string_under d ''difficulty_level''
     \<or> duration_overflows L d \<or> rating_rejected L d"

definition lacks_title_or_url :: "json \<Rightarrow> bool" where
  "lacks_title_or_url item =
     (case item of JObj d \<Rightarrow> \<not> has_text d ''title'' \<or> \<not> has_text d ''url'' | _ \<Rightarrow> True)"

definition normalize :: "lib \<Rightarrow> SkillGap \<Rightarrow> ResourceFilters \<Rightarrow> json \<Rightarrow> Resource list" where
  "normalize L gap flt item =
     (case make_resource L item gap of
        Inr (Some r) \<Rightarrow> (if passes_filters flt r then [r] else [])
      | _ \<Rightarrow> [])"

text \<open>
  Sample inputs: a skill gap, the default filters, a loosely filled item, and an item
  whose \<open>resource_type\<close> is \<open>null\<close>.
\<close>

definition sample_gap :: SkillGap where
  "sample_gap =
     \<lparr> skill_name = ''Rust'', required_level = ADVANCED, priority = CRITICAL,
       recommended_starting_level = ''beginner'' \<rparr>"

definition default_filters :: ResourceFilters where
  "default_filters =
     \<lparr> free_only = True, max_duration_hours = 100, resource_types = [COURSE, TUTORIAL, VIDEO] \<rparr>"

definition sloppy_item :: json where
  "sloppy_item =
     JObj [ (''title'', JStr '' The Rust Book ''), (''url'', JStr ''https://doc.rust-lang.org/book/''),
            (''resource_type'', JStr ''Podcast''), (''duration_hours'', JStr ''a few''),
            (''provider'', JStr ''  '') ]"

definition null_type_item :: json where
  "null_type_item =
     JObj [ (''title'', JStr ''The Rust Book''), (''url'', JStr ''https://doc.rust-lang.org/book/''),
            (''resource_type'', JNull) ]"

text \<open>
  Two more sample items: one whose duration reads as NaN, with a \<open>float\<close> that
  reads the string \<open>nan\<close> so, and one whose duration is an integer too large for a
  \<open>float\<close>.
\<close>

definition nan_lib :: lib where
  "nan_lib = echo_lib\<lparr> float_of_str := (\<lambda>s. if s = ''nan'' then Some NaN else None) \<rparr>"

definition nan_item :: json where
  "nan_item =
     JObj [ (''title'', JStr ''The Rust Book''), (''url'', JStr ''https://doc.rust-lang.org/book/''),
            (''duration_hours'', JStr ''nan'') ]"

definition huge_item :: json where
  "huge_item =
     JObj [ (''title'', JStr ''The Rust Book''), (''url'', JStr ''https://doc.rust-lang.org/book/''),
            (''duration_hours'', JInt (- (10 ^ 400))) ]"

text \<open>
  The Judge's reading of a judgement object: its score, whether the loop's log lines
  go through on it (a score that is a \<open>float\<close>, a \<open>bool\<close> or an
  \<open>int\<close> that converts to a \<open>float\<close>, and a reasoning that is absent, a
  string or a list), and the decision rule of the specification.
\<close>

definition judgement_score :: "(string \<times> json) list \<Rightarrow> json" where
  "judgement_score j =
     (case dict_get j ''relevance_score'' of None \<Rightarrow> JFloat (Finite 0) | Some v \<Rightarrow> v)"

definition well_formed_judgement :: "lib \<Rightarrow> (string \<times> json) list \<Rightarrow> bool" where
  "well_formed_judgement L j \<longleftrightarrow>
     j \<noteq> [] \<and> score_formats L (judgement_score j) \<and> reasoning_slices (dict_get j ''reasoning'')"

definition verdict :: "JudgeAgent \<Rightarrow> (string \<times> json) list option \<Rightarrow> bool" where
  "verdict J judgement =
     (case judgement of
        None \<Rightarrow> True
      | Some j \<Rightarrow> float_ge (score_value (judgement_score j)) (relevance_threshold J))"

definition tested ::
  "lib \<Rightarrow> JudgeAgent \<Rightarrow> (nat \<Rightarrow> session) \<Rightarrow> nat \<times> Resource \<Rightarrow> Resource list" where
  \<comment> \<open>what the \<open>k\<close>-th tested resource adds to \<open>validated_resources\<close>\<close>
  "tested L J sessions p = judge_one L J (autonomous_validate L (sessions (fst p))) (snd p) []"

text \<open>Sample inputs for the Judge.\<close>

definition fixed_lib :: "json \<Rightarrow> lib" where
  \<comment> \<open>a parser that reads the given value out of every text\<close>
  "fixed_lib v = echo_lib\<lparr> json_loads := (\<lambda>s. Some v) \<rparr>"

definition one_block_session :: "string \<Rightarrow> session" where
  "one_block_session t =
     \<lparr> connect_fails = False, send_fails = False,
       messages = [\<lparr> role = ''assistant'', content = [TextBlock t] \<rparr>],
       stream_fails = False \<rparr>"

definition failing_session :: session where
  "failing_session =
     \<lparr> connect_fails = True, send_fails = False, messages = [], stream_fails = False \<rparr>"

definition sample_resource :: Resource where
  "sample_resource =
     \<lparr> title = ''The Rust Book'', url = ''https://doc.rust-lang.org/book/'',
       provider = ''rust-lang.org'', resource_type = TUTORIAL, difficulty_level = ''beginner'',
       duration_hours = Finite 10, is_free = True, rating = None, description = [],
       tech_stack_match = [''Rust''] \<rparr>"

definition default_judge :: JudgeAgent where
  "default_judge = \<lparr> relevance_threshold = Finite (7 / 10), validate_top_n = 5 \<rparr>"

text \<open>
  A parser for two judgement texts, three sessions (a high score, a low score, a failed
  connect) and three resources to try them on; and the text of a judgement with a low
  score whose \<open>reasoning\<close> is \<open>null\<close>, with a parser that reads it.
\<close>

definition verdict_lib :: lib where
  "verdict_lib =
     echo_lib\<lparr> json_loads :=
       (\<lambda>s. if s = ''{hi}'' then Some (JObj [(''relevance_score'', JFloat (Finite (9 / 10)))])
            else if s = ''{lo}'' then Some (JObj [(''relevance_score'', JFloat (Finite (3 / 10)))])
            else None) \<rparr>"

definition trial_sessions :: "nat \<Rightarrow> session" where
  "trial_sessions k =
     (if k = 0 then one_block_session ''{hi}''
      else if k = 1 then one_block_session ''{lo}''
      else failing_session)"

definition trial_resources :: "Resource list" where
  "trial_resources =
     [sample_resource, sample_resource\<lparr> title := ''B'' \<rparr>, sample_resource\<lparr> title := ''C'' \<rparr>]"

definition low_score_text :: string where
  \<comment> \<open>the text \<open>{"relevance_score": 0.3, "reasoning": null}\<close>\<close>
  "low_score_text =
     ''{'' @ [CHR 0x22] @ ''relevance_score'' @ [CHR 0x22] @ '': 0.3, ''
       @ [CHR 0x22] @ ''reasoning'' @ [CHR 0x22] @ '': null}''"

definition low_score_lib :: lib where
  "low_score_lib =
     echo_lib\<lparr> json_loads :=
       (\<lambda>s. if s = low_score_text
            then Some (JObj [(''relevance_score'', JFloat (Finite (3 / 10))), (''reasoning'', JNull)])
            else None) \<rparr>"

text \<open>
  Sample inputs for the Curator: a task whose agent cannot be reached while a search
  client is at hand, and a task whose agent can be reached while no search client is
  configured, as in an orchestrator that builds its Curator without one.
\<close>

definition unreachable_env :: task_env where
  "unreachable_env =
     \<lparr> task_session = failing_session,
       parallel_api = Some (Inr [sloppy_item]),
       api_ctor_fails = False \<rparr>"

definition no_client_env :: task_env where
  "no_client_env =
     \<lparr> task_session = one_block_session ''[x]'', parallel_api = None, api_ctor_fails = False \<rparr>"

text \<open>The list a task's outcome puts under its skill name.\<close>

definition task_resources :: "error + Resource list \<Rightarrow> Resource list" where
  "task_resources result = (case result of Inl e \<Rightarrow> [] | Inr resources \<Rightarrow> resources)"

text \<open>The outcomes of the per-skill tasks, in the order of the skill gaps.\<close>

definition task_results ::
  "lib \<Rightarrow> (nat \<Rightarrow> task_env) \<Rightarrow> SkillGap list \<Rightarrow> string list \<Rightarrow> ResourceFilters
     \<Rightarrow> (error + Resource list) list" where
  "task_results L envs gaps stack flt =
     map (\<lambda>(i, gap). snd (curate_for_skill L (envs i) gap stack flt)) (enumerate 0 gaps)"

text \<open>The job as \<open>process_request\<close> creates it, before the first phase.\<close>

definition new_response :: "request_env \<Rightarrow> AnalysisResponse" where
  "new_response env =
     \<lparr> job_id = new_job_id env, status = IN_PROGRESS, analysis_result = None,
       curated_resources = [], notebooklm_generated = [], error_message = None \<rparr>"

text \<open>Sample inputs for the Analyzer and the Orchestrator.\<close>

definition input_titled :: "string \<Rightarrow> AnalyzerInput" where
  "input_titled t =
     \<lparr> ai_resume_text = ''3 years Python, Flask, PostgreSQL'',
       ai_job_description = ''Kubernetes and CI/CD'',
       ai_target_job_title = t \<rparr>"

definition null_filters_request :: AnalysisRequest where
  "null_filters_request =
     \<lparr> resume_text = ''3 years Python, Flask, PostgreSQL'',
       job_description = ''Kubernetes and CI/CD'',
       target_job_title = ''Senior DevOps Engineer'',
       filters = None \<rparr>"

definition default_orchestrator :: OrchestratorAgent where
  "default_orchestrator = \<lparr> enable_judge = True, enable_cache = False, judge = default_judge \<rparr>"

definition offline_env :: request_env where
  "offline_env =
     \<lparr> new_job_id = ''job-1'', cache_get_fails = False, cache_set_fails = False,
       analyzer_session = failing_session,
       curator_envs = (\<lambda>i. unreachable_env),
       judge_sessions = (\<lambda>k i. failing_session) \<rparr>"

definition fresh_state :: orch_state where
  "fresh_state = \<lparr> redis_store = Map.empty, analyzer_runs = 0 \<rparr>"

text \<open>
  A serializer that is exact on mock analyses: the document is the job category, and
  reading it back rebuilds the mock analysis for that title. With it, an orchestrator
  with caching and a request with the default filters.
\<close>

definition title_lib :: lib where
  "title_lib =
     echo_lib\<lparr> model_load_json :=
       (\<lambda>s. Some (generate_mock_analysis
                    \<lparr> ai_resume_text = [], ai_job_description = [], ai_target_job_title = s \<rparr>)) \<rparr>"

definition caching_orchestrator :: OrchestratorAgent where
  "caching_orchestrator = \<lparr> enable_judge = True, enable_cache = True, judge = default_judge \<rparr>"

definition sample_request :: AnalysisRequest where
  "sample_request = null_filters_request\<lparr> filters := Some default_filters \<rparr>"

text \<open>
  Two skill gaps with different names, the second of which meets a task that raises
  (no agent, no search client, and the client for the static data cannot be built).
\<close>

definition broken_env :: task_env where
  "broken_env =
     \<lparr> task_session = failing_session, parallel_api = None, api_ctor_fails = True \<rparr>"

definition two_gaps :: "SkillGap list" where
  "two_gaps = [sample_gap, sample_gap\<lparr> skill_name := ''Go'' \<rparr>]"

definition two_envs :: "nat \<Rightarrow> task_env" where
  "two_envs i = (if i = 0 then unreachable_env else broken_env)"

lemma brace_depth_append: "brace_depth (xs @ ys) = brace_depth xs + brace_depth ys"
  by (induction xs) auto

lemma brace_scan_cases:
  "0 < cnt \<Longrightarrow> 0 \<le> i \<Longrightarrow>
     (brace_scan cs cnt i = - 1 \<and> (\<forall>n \<le> length cs. 0 < cnt + brace_depth (take n cs)))
   \<or> (\<exists>n. 0 < n \<and> n \<le> length cs \<and> brace_scan cs cnt i = i + int n
          \<and> cnt + brace_depth (take n cs) = 0
          \<and> (\<forall>m < n. 0 < cnt + brace_depth (take m cs))
          \<and> cs ! (n - 1) = CHR ''}'')"
proof (induction cs arbitrary: cnt i)
  case Nil
  then show ?case by simp
next
  case (Cons c cs)
  define cnt' where "cnt' = cnt + (if c = CHR ''{'' then 1 else if c = CHR ''}'' then - 1 else 0)"
  show ?case
  proof (cases "c = CHR ''}'' \<and> cnt - 1 = 0")
    case True
    have "brace_scan (c # cs) cnt i = i + int 1" using True by simp
    moreover have "cnt + brace_depth (take 1 (c # cs)) = 0" using True by simp
    moreover have "\<forall>m < (1::nat). 0 < cnt + brace_depth (take m (c # cs))" using Cons.prems by simp
    moreover have "(c # cs) ! (1 - 1) = CHR ''}''" using True by simp
    ultimately show ?thesis
      by (intro disjI2 exI[of _ 1]) simp
  next
    case False
    have pos: "0 < cnt'" using False Cons.prems by (auto simp: cnt'_def)
    have step: "brace_scan (c # cs) cnt i = brace_scan cs cnt' (i + 1)"
      using False by (auto simp: cnt'_def)
    have dep: "cnt + brace_depth (take (Suc n) (c # cs)) = cnt' + brace_depth (take n cs)" for n
      by (simp add: cnt'_def)
    from Cons.IH[OF pos, of "i + 1"] Cons.prems
    consider (none) "brace_scan cs cnt' (i + 1) = - 1"
        "\<forall>n \<le> length cs. 0 < cnt' + brace_depth (take n cs)"
      | (some) n where "0 < n" "n \<le> length cs" "brace_scan cs cnt' (i + 1) = i + 1 + int n"
        "cnt' + brace_depth (take n cs) = 0" "\<forall>m < n. 0 < cnt' + brace_depth (take m cs)"
        "cs ! (n - 1) = CHR ''}''"
      by auto
    then show ?thesis
    proof cases
      case none
      have "\<forall>n \<le> length (c # cs). 0 < cnt + brace_depth (take n (c # cs))"
      proof (intro allI impI)
        fix n assume "n \<le> length (c # cs)"
        show "0 < cnt + brace_depth (take n (c # cs))"
        proof (cases n)
          case 0 then show ?thesis using Cons.prems by simp
        next
          case (Suc k)
          then have "k \<le> length cs" using \<open>n \<le> length (c # cs)\<close> by simp
          then have "0 < cnt' + brace_depth (take k cs)" using none(2) by blast
          then show ?thesis unfolding Suc dep .
        qed
      qed
      then show ?thesis using none(1) step by simp
    next
      case some
      have "\<forall>m < Suc n. 0 < cnt + brace_depth (take m (c # cs))"
      proof (intro allI impI)
        fix m assume "m < Suc n"
        show "0 < cnt + brace_depth (take m (c # cs))"
        proof (cases m)
          case 0 then show ?thesis using Cons.prems by simp
        next
          case (Suc k)
          then have "k < n" using \<open>m < Suc n\<close> by simp
          then have "0 < cnt' + brace_depth (take k cs)" using some(5) by blast
          then show ?thesis unfolding Suc dep .
        qed
      qed
      moreover have "brace_scan (c # cs) cnt i = i + int (Suc n)" using step some(3) by simp
      moreover have "cnt + brace_depth (take (Suc n) (c # cs)) = 0" using dep[of n] some(4) by simp
      moreover have "(c # cs) ! (Suc n - 1) = CHR ''}''" using some(1,6) by (cases n) auto
      ultimately show ?thesis using some(1,2)
        by (intro disjI2 exI[of _ "Suc n"]) simp
    qed
  qed
qed

lemma takeWhile_neq_first: "c \<notin> set pre \<Longrightarrow> takeWhile (\<lambda>x. x \<noteq> c) (pre @ c # rest) = pre"
  by (induction pre) auto

lemma str_find_first: "c \<notin> set pre \<Longrightarrow> str_find (pre @ c # rest) c = int (length pre)"
  by (simp add: str_find_def takeWhile_neq_first)

lemma str_rfind_last: "c \<notin> set post \<Longrightarrow> str_rfind (pre @ c # post) c = int (length pre)"
  using takeWhile_neq_first[of c "rev post" "rev pre"] by (simp add: str_rfind_def)

lemma json_object_span_balanced:
  assumes "json_object_span t = Some s"
  shows "balanced_object_span t s"
proof -
  have in_t: "CHR ''{'' \<in> set t"
    using assms by (auto simp: json_object_span_def split: if_splits)
  then obtain pre rest where t: "t = pre @ CHR ''{'' # rest" and pre: "CHR ''{'' \<notin> set pre"
    by (meson split_list_first)
  have start: "str_find t CHR ''{'' = int (length pre)"
    unfolding t using pre by (rule str_find_first)
  have dr: "drop (length pre) t = CHR ''{'' # rest" by (simp add: t)
  define e where "e = brace_scan rest 1 (int (length pre) + 1)"
  have scan: "brace_scan (drop (nat (str_find t CHR ''{'')) t) 0 (str_find t CHR ''{'') = e"
    by (simp add: start dr e_def)
  have gt: "e > int (length pre)" and s: "s = slice t (int (length pre)) e"
    using assms in_t scan start by (auto simp: json_object_span_def Let_def split: if_splits)
  from brace_scan_cases[of 1 "int (length pre) + 1" rest] gt
  obtain n where n: "0 < n" "n \<le> length rest" "e = int (length pre) + 1 + int n"
      "1 + brace_depth (take n rest) = 0" "\<forall>m < n. 0 < 1 + brace_depth (take m rest)"
    unfolding e_def by auto
  have s': "s = CHR ''{'' # take n rest"
    by (simp add: s slice_def n(3) dr nat_add_distrib)
  have "t = pre @ s @ drop n rest" by (simp add: t s')
  moreover have "brace_depth s = 0" using n(4) by (simp add: s')
  moreover have "\<forall>k \<in> {1..<length s}. 0 < brace_depth (take k s)"
  proof
    fix k assume "k \<in> {1..<length s}"
    then obtain m where k: "k = Suc m" and m: "m < n"
      using n(2) by (cases k) (auto simp: s')
    have "take m (take n rest) = take m rest" using m by (simp add: min_def)
    then show "0 < brace_depth (take k s)" using n(5) m by (simp add: k s')
  qed
  ultimately show ?thesis
    unfolding balanced_object_span_def using pre by (intro exI[of _ pre] exI[of _ "drop n rest"]) (simp add: s')
qed

lemma balanced_json_object_span:
  assumes "balanced_object_span t s"
  shows "json_object_span t = Some s"
proof -
  from assms obtain pre post where t: "t = pre @ s @ post" and pre: "CHR ''{'' \<notin> set pre"
    and ne: "s \<noteq> []" and hd: "hd s = CHR ''{''" and d0: "brace_depth s = 0"
    and pos: "\<forall>n \<in> {1..<length s}. 0 < brace_depth (take n s)"
    unfolding balanced_object_span_def by blast
  obtain s' where s: "s = CHR ''{'' # s'" using ne hd by (cases s) auto
  have t': "t = pre @ CHR ''{'' # (s' @ post)" by (simp add: t s)
  have in_t: "CHR ''{'' \<in> set t" by (simp add: t')
  have start: "str_find t CHR ''{'' = int (length pre)"
    unfolding t' using pre by (rule str_find_first)
  have dr: "drop (length pre) t = CHR ''{'' # (s' @ post)" by (simp add: t')
  define e where "e = brace_scan (s' @ post) 1 (int (length pre) + 1)"
  have scan: "brace_scan (drop (nat (str_find t CHR ''{'')) t) 0 (str_find t CHR ''{'') = e"
    by (simp add: start dr e_def)
  have ds': "1 + brace_depth s' = 0" using d0 by (simp add: s)
  have "\<not> (\<forall>n \<le> length (s' @ post). 0 < 1 + brace_depth (take n (s' @ post)))"
  proof
    assume a: "\<forall>n \<le> length (s' @ post). 0 < 1 + brace_depth (take n (s' @ post))"
    have "length s' \<le> length (s' @ post)" by simp
    with a have "0 < 1 + brace_depth (take (length s') (s' @ post))" by blast
    then show False using ds' by simp
  qed
  with brace_scan_cases[of 1 "int (length pre) + 1" "s' @ post"]
  obtain n where n: "0 < n" "e = int (length pre) + 1 + int n"
      "1 + brace_depth (take n (s' @ post)) = 0"
      "\<forall>m < n. 0 < 1 + brace_depth (take m (s' @ post))"
    unfolding e_def by auto
  have "n = length s'"
  proof (rule ccontr)
    assume neq: "n \<noteq> length s'"
    show False
    proof (cases "n < length s'")
      case True
      then have "Suc n \<in> {1..<length s}" by (simp add: s)
      then have p: "0 < brace_depth (take (Suc n) s)" using pos by blast
      have eq: "take n (s' @ post) = take n s'" using True by simp
      have a: "1 + brace_depth (take n s') = 0" using n(3) unfolding eq .
      have b: "brace_depth (take (Suc n) s) = 1 + brace_depth (take n s')" by (simp add: s)
      show False using a b p by simp
    next
      case False
      then have "length s' < n" using neq by simp
      then have "0 < 1 + brace_depth (take (length s') (s' @ post))" using n(4) by blast
      moreover have "take (length s') (s' @ post) = s'" by simp
      ultimately show False using ds' by (simp only:)
    qed
  qed
  then have e: "e = int (length pre) + 1 + int (length s')" using n(2) by simp
  have "slice t (int (length pre)) e = s"
    by (simp add: slice_def e dr s nat_add_distrib)
  then show ?thesis
    using in_t scan start e by (simp add: json_object_span_def Let_def)
qed

lemma json_object_span_iff: "json_object_span t = Some s \<longleftrightarrow> balanced_object_span t s"
  using json_object_span_balanced balanced_json_object_span by blast

text \<open>
  Claim C7. When the fence-stripped text holds no balanced object span (no brace, or
  the depth never returns to zero after the first opening brace, as in truncated
  output), the extractor fails with the \<open>ValueError\<close> "No JSON object found in
  response". When it holds one, the extractor's result is \<open>json.loads\<close> of exactly
  that span: the parsed value, or the \<open>ValueError\<close> "Invalid JSON in response"
  when the span does not parse. It never returns anything else.
\<close>

theorem extract_fails_or_parses_balanced_span:
  "(\<not> (\<exists>s. balanced_object_span (strip_fences response) s) \<longrightarrow>
      extract_json_with_fallback L response = Inl (ValueError ''No JSON object found in response''))
   \<and> (\<forall>s. balanced_object_span (strip_fences response) s \<longrightarrow>
      extract_json_with_fallback L response =
        (case json_loads L s of
           None \<Rightarrow> Inl (ValueError ''Invalid JSON in response'')
         | Some data \<Rightarrow> Inr data))"
proof (intro conjI allI impI)
  assume "\<not> (\<exists>s. balanced_object_span (strip_fences response) s)"
  then have "json_object_span (strip_fences response) = None"
    using json_object_span_balanced by (cases "json_object_span (strip_fences response)") auto
  then show "extract_json_with_fallback L response = Inl (ValueError ''No JSON object found in response'')"
    by (simp add: extract_json_with_fallback_def)
next
  fix s assume "balanced_object_span (strip_fences response) s"
  then have "json_object_span (strip_fences response) = Some s"
    by (rule balanced_json_object_span)
  then show "extract_json_with_fallback L response =
        (case json_loads L s of
           None \<Rightarrow> Inl (ValueError ''Invalid JSON in response'')
         | Some data \<Rightarrow> Inr data)"
    by (simp add: extract_json_with_fallback_def)
qed

theorem extract_fails_or_parses_balanced_span_witness:
  "extract_json_with_fallback echo_lib ''{a{b}'' = Inl (ValueError ''No JSON object found in response'')
   \<and> extract_json_with_fallback echo_lib ''ab{c{d}}e}'' = Inr (JStr ''{c{d}}'')"
proof -
  have c1: "strip_fences ''{a{b}'' = ''{a{b}''" and c2: "strip_fences ''ab{c{d}}e}'' = ''ab{c{d}}e}''"
    by (simp_all add: strip_fences_def strip_def startswith_def endswith_def is_space_def)
  have "json_object_span ''{a{b}'' = None"
    by (simp add: json_object_span_def str_find_def slice_def)
  then have h1: "\<not> (\<exists>s. balanced_object_span (strip_fences ''{a{b}'') s)"
    unfolding c1 by (simp add: json_object_span_iff[symmetric])
  have "json_object_span ''ab{c{d}}e}'' = Some ''{c{d}}''"
    by (simp add: json_object_span_def str_find_def slice_def)
  then have h2: "balanced_object_span (strip_fences ''ab{c{d}}e}'') ''{c{d}}''"
    unfolding c2 by (simp add: json_object_span_iff)
  from extract_fails_or_parses_balanced_span[of "''{a{b}''" echo_lib] h1
  have "extract_json_with_fallback echo_lib ''{a{b}'' = Inl (ValueError ''No JSON object found in response'')"
    by blast
  moreover from extract_fails_or_parses_balanced_span[of "''ab{c{d}}e}''" echo_lib] h2
  have "extract_json_with_fallback echo_lib ''ab{c{d}}e}'' = Inr (JStr ''{c{d}}'')"
    by (simp add: echo_lib_def)
  ultimately show ?thesis by simp
qed

lemma balanced_span_last:
  assumes "balanced_object_span t s"
  shows "last s = CHR ''}''"
proof -
  from assms obtain ne: "s \<noteq> []" and hd: "hd s = CHR ''{''" and d0: "brace_depth s = 0"
    and pos: "\<forall>n \<in> {1..<length s}. 0 < brace_depth (take n s)"
    unfolding balanced_object_span_def by blast
  have s: "s = butlast s @ [last s]" using ne by simp
  have "length s \<noteq> 1"
  proof
    assume "length s = 1"
    then have "s = [CHR ''{'']" using hd by (cases s) auto
    then show False using d0 by simp
  qed
  moreover have "length s \<noteq> 0" using ne by simp
  ultimately have "2 \<le> length s" by arith
  then have "length s - 1 \<in> {1..<length s}" by auto
  then have "0 < brace_depth (take (length s - 1) s)" using pos by blast
  then have p: "0 < brace_depth (butlast s)" by (simp add: butlast_conv_take)
  have "brace_depth s = brace_depth (butlast s) + brace_depth [last s]"
    using brace_depth_append[of "butlast s" "[last s]"] s by simp
  then have "brace_depth [last s] < 0" using p d0 by simp
  then show ?thesis by (simp split: if_splits)
qed

lemma judge_json_str_first_to_last:
  assumes "judge_json_str text = Some s"
  shows "first_to_last_span (strip_fences text) s"
proof -
  define t where "t = strip_fences text"
  have in_t: "CHR ''{'' \<in> set t"
    using assms by (auto simp: judge_json_str_def t_def Let_def split: if_splits)
  have gt: "str_rfind t CHR ''}'' + 1 > str_find t CHR ''{''"
    and s: "s = slice t (str_find t CHR ''{'') (str_rfind t CHR ''}'' + 1)"
    using assms by (auto simp: judge_json_str_def t_def Let_def split: if_splits)
  obtain pre r where t1: "t = pre @ CHR ''{'' # r" and pre: "CHR ''{'' \<notin> set pre"
    using in_t by (meson split_list_first)
  have start: "str_find t CHR ''{'' = int (length pre)"
    unfolding t1 using pre by (rule str_find_first)
  have "CHR ''}'' \<in> set t"
  proof (rule ccontr)
    assume "CHR ''}'' \<notin> set t"
    then have "str_rfind t CHR ''}'' = - 1" by (simp add: str_rfind_def)
    then show False using gt start by simp
  qed
  then obtain a post where t2: "t = a @ CHR ''}'' # post" and post: "CHR ''}'' \<notin> set post"
    by (meson split_list_last)
  have stop: "str_rfind t CHR ''}'' = int (length a)"
    unfolding t2 using post by (rule str_rfind_last)
  have le: "length pre \<le> length a" using gt start stop by simp
  have s': "s = drop (length pre) (a @ [CHR ''}''])"
  proof -
    have "nat (int (length a) + 1 - int (length pre)) = Suc (length a) - length pre"
      using le by arith
    then have "s = take (Suc (length a) - length pre) (drop (length pre) t)"
      by (simp add: s slice_def start stop)
    also have "\<dots> = drop (length pre) (take (Suc (length a)) t)"
      using le by (simp add: drop_take)
    also have "take (Suc (length a)) t = a @ [CHR ''}'']" by (simp add: t2)
    finally show ?thesis .
  qed
  have pre_eq: "pre = take (length pre) (a @ [CHR ''}''])"
  proof -
    have "pre = take (length pre) t" by (simp add: t1)
    also have "\<dots> = take (length pre) (a @ [CHR ''}''] @ post)" by (simp add: t2)
    also have "\<dots> = take (length pre) (a @ [CHR ''}''])" using le by simp
    finally show ?thesis .
  qed
  have split: "a @ [CHR ''}''] = pre @ s"
    by (metis append_take_drop_id pre_eq s')
  have ne: "s \<noteq> []" using le by (simp add: s')
  have "t = pre @ s @ post" using split t2 by simp
  moreover have "hd s = CHR ''{''"
  proof -
    have "pre @ s @ post = pre @ CHR ''{'' # r" using \<open>t = pre @ s @ post\<close> t1 by simp
    then have "s @ post = CHR ''{'' # r" by simp
    then show ?thesis using ne by (cases s) auto
  qed
  moreover have "last s = CHR ''}''"
    using split ne by (metis last_appendR last_snoc)
  ultimately show ?thesis
    unfolding first_to_last_span_def t_def[symmetric] using pre post ne by blast
qed

lemma first_to_last_judge_json_str:
  assumes "first_to_last_span (strip_fences text) s"
  shows "judge_json_str text = Some s"
proof -
  define t where "t = strip_fences text"
  from assms obtain pre post where t: "t = pre @ s @ post" and pre: "CHR ''{'' \<notin> set pre"
    and post: "CHR ''}'' \<notin> set post" and ne: "s \<noteq> []" and hd: "hd s = CHR ''{''"
    and last: "last s = CHR ''}''"
    unfolding first_to_last_span_def t_def by blast
  obtain x where sx: "s = CHR ''{'' # x" using ne hd by (cases s) auto
  have sy: "s = butlast s @ [CHR ''}'']" using ne last by (metis append_butlast_last_id)
  have t1: "t = pre @ CHR ''{'' # (x @ post)" by (simp add: t sx)
  have t2: "t = (pre @ butlast s) @ CHR ''}'' # post" using sy by (simp add: t)
  have in_t: "CHR ''{'' \<in> set t" by (simp add: t1)
  have start: "str_find t CHR ''{'' = int (length pre)"
    unfolding t1 using pre by (rule str_find_first)
  have stop: "str_rfind t CHR ''}'' = int (length (pre @ butlast s))"
    using str_rfind_last[OF post, of "pre @ butlast s"] t2 by simp
  have len: "length (pre @ butlast s) + 1 = length pre + length s" using ne by (cases s) auto
  have "slice t (int (length pre)) (int (length (pre @ butlast s)) + 1) = s"
  proof -
    have "int (length (pre @ butlast s)) + 1 - int (length pre) = int (length s)"
      using len by simp
    then show ?thesis by (simp add: slice_def t)
  qed
  moreover have "int (length (pre @ butlast s)) + 1 > int (length pre)" using len ne by simp
  ultimately show ?thesis
    using in_t start stop by (simp add: judge_json_str_def Let_def t_def[symmetric])
qed

lemma judge_json_str_iff: "judge_json_str text = Some s \<longleftrightarrow> first_to_last_span (strip_fences text) s"
  using judge_json_str_first_to_last first_to_last_judge_json_str by blast

text \<open>
  Claim C9, as amended. The span the Judge parses is the one from the first opening
  brace of the fence-stripped text to its last closing brace. Whenever the
  brace-counting extractor selects a span, the Judge selects one too and the
  brace-counting span is a prefix of the Judge's; the two are the same exactly when
  no closing brace follows the balanced span.
\<close>

theorem judge_span_is_first_to_last_brace:
  "(\<forall>s'. judge_json_str text = Some s' \<longleftrightarrow> first_to_last_span (strip_fences text) s')
   \<and> (\<forall>s. json_object_span (strip_fences text) = Some s \<longrightarrow>
        (\<exists>s'. judge_json_str text = Some s' \<and> prefix s s')
        \<and> (judge_json_str text = Some s \<longleftrightarrow>
             (\<exists>pre post. strip_fences text = pre @ s @ post
                \<and> CHR ''{'' \<notin> set pre \<and> CHR ''}'' \<notin> set post)))"
proof (intro conjI allI impI)
  fix s' show "judge_json_str text = Some s' \<longleftrightarrow> first_to_last_span (strip_fences text) s'"
    by (rule judge_json_str_iff)
next
  fix s assume a: "json_object_span (strip_fences text) = Some s"
  define t where "t = strip_fences text"
  have bal: "balanced_object_span t s" using a by (simp add: json_object_span_iff t_def)
  then obtain pre post where t: "t = pre @ s @ post" and pre: "CHR ''{'' \<notin> set pre"
    and ne: "s \<noteq> []" and hd: "hd s = CHR ''{''"
    unfolding balanced_object_span_def by blast
  have last: "last s = CHR ''}''" using bal by (rule balanced_span_last)
  show "\<exists>s'. judge_json_str text = Some s' \<and> prefix s s'"
  proof (cases "CHR ''}'' \<in> set post")
    case False
    then have "first_to_last_span t s"
      unfolding first_to_last_span_def using t pre ne hd last by blast
    then show ?thesis using judge_json_str_iff t_def by blast
  next
    case True
    then obtain a b where post: "post = a @ CHR ''}'' # b" and b: "CHR ''}'' \<notin> set b"
      by (meson split_list_last)
    have "t = pre @ (s @ a @ [CHR ''}'']) @ b" by (simp add: t post)
    moreover have "hd (s @ a @ [CHR ''}'']) = CHR ''{''" using ne hd by simp
    moreover have "last (s @ a @ [CHR ''}'']) = CHR ''}''" by simp
    ultimately have "first_to_last_span t (s @ a @ [CHR ''}''])"
      unfolding first_to_last_span_def using pre b by blast
    then have "judge_json_str text = Some (s @ a @ [CHR ''}''])"
      using judge_json_str_iff t_def by blast
    then show ?thesis by simp
  qed
  show "judge_json_str text = Some s \<longleftrightarrow>
          (\<exists>pre post. strip_fences text = pre @ s @ post
             \<and> CHR ''{'' \<notin> set pre \<and> CHR ''}'' \<notin> set post)"
  proof
    assume "judge_json_str text = Some s"
    then have "first_to_last_span (strip_fences text) s" by (simp add: judge_json_str_iff)
    then show "\<exists>pre post. strip_fences text = pre @ s @ post
             \<and> CHR ''{'' \<notin> set pre \<and> CHR ''}'' \<notin> set post"
      unfolding first_to_last_span_def by blast
  next
    assume "\<exists>pre post. strip_fences text = pre @ s @ post
             \<and> CHR ''{'' \<notin> set pre \<and> CHR ''}'' \<notin> set post"
    then have "first_to_last_span (strip_fences text) s"
      unfolding first_to_last_span_def using ne hd last by blast
    then show "judge_json_str text = Some s" by (simp add: judge_json_str_iff)
  qed
qed

theorem judge_span_is_first_to_last_brace_witness:
  "(\<exists>s'. judge_json_str ''x {a{b}} y} z'' = Some s' \<and> prefix ''{a{b}}'' s')
   \<and> judge_json_str ''x {a{b}} y} z'' \<noteq> Some ''{a{b}}''
   \<and> judge_json_str ''see {a{b}}.'' = Some ''{a{b}}''"
proof -
  have c1: "strip_fences ''x {a{b}} y} z'' = ''x {a{b}} y} z''"
    and c2: "strip_fences ''see {a{b}}.'' = ''see {a{b}}.''"
    by (simp_all add: strip_fences_def strip_def startswith_def endswith_def is_space_def)
  have h1: "json_object_span (strip_fences ''x {a{b}} y} z'') = Some ''{a{b}}''"
    unfolding c1 by (simp add: json_object_span_def str_find_def slice_def)
  have h2: "json_object_span (strip_fences ''see {a{b}}.'') = Some ''{a{b}}''"
    unfolding c2 by (simp add: json_object_span_def str_find_def slice_def)
  have j1: "judge_json_str ''x {a{b}} y} z'' = Some ''{a{b}} y}''"
    by (simp add: judge_json_str_def c1 str_find_def str_rfind_def slice_def)
  have "\<exists>pre post. strip_fences ''see {a{b}}.'' = pre @ ''{a{b}}'' @ post
          \<and> CHR ''{'' \<notin> set pre \<and> CHR ''}'' \<notin> set post"
    unfolding c2 by (intro exI[of _ "''see ''"] exI[of _ "''.''"]) simp
  with judge_span_is_first_to_last_brace[of "''see {a{b}}.''"] h2
  have "judge_json_str ''see {a{b}}.'' = Some ''{a{b}}''" by blast
  moreover from judge_span_is_first_to_last_brace[of "''x {a{b}} y} z''"] h1
  have "\<exists>s'. judge_json_str ''x {a{b}} y} z'' = Some s' \<and> prefix ''{a{b}}'' s'" by blast
  ultimately show ?thesis using j1 by simp
qed

text \<open>
  The claim as stated fails on two objects in a row: the brace-counting extractor
  stops after the first, the Judge takes both.
\<close>

theorem judge_span_differs_counterexample:
  "json_object_span (strip_fences ''{a: 1} {b: 2}'') = Some ''{a: 1}''
   \<and> judge_json_str ''{a: 1} {b: 2}'' = Some ''{a: 1} {b: 2}''"
proof -
  have c: "strip_fences ''{a: 1} {b: 2}'' = ''{a: 1} {b: 2}''"
    by (simp add: strip_fences_def strip_def startswith_def endswith_def is_space_def)
  show ?thesis
    by (simp add: c json_object_span_def judge_json_str_def str_find_def str_rfind_def slice_def)
qed

lemma convert_loop_concat:
  "convert_loop L items gap flt acc = acc @ concat (map (normalize L gap flt) items)"
  by (induction items arbitrary: acc)
     (auto simp: normalize_def split: sum.splits option.splits)

lemma convert_to_resources_concat:
  "convert_to_resources L items gap flt = concat (map (normalize L gap flt) items)"
  by (simp add: convert_to_resources_def convert_loop_concat)

lemma make_resource_inv:
  assumes "make_resource L (JObj d) gap = Inr (Some r)"
  obtains title0 url0 type_str duration provider0 level rating0 description0 where
    "str_field d ''title'' [] = Inr title0" "str_field d ''url'' [] = Inr url0"
    "strip title0 \<noteq> []" "strip url0 \<noteq> []"
    "str_field d ''resource_type'' ''tutorial'' = Inr type_str"
    "duration_of L d = Inr duration"
    "str_field d ''provider'' ''Unknown'' = Inr provider0"
    "difficulty_of d gap = Inr level"
    "rating_of L (dict_get d ''rating'') = Inr rating0"
    "str_field d ''description'' [] = Inr description0"
    "r = \<lparr> title = strip title0, url = strip url0,
           provider = (if strip provider0 = [] then ''Unknown'' else strip provider0),
           resource_type = (case ResourceType_of (lower type_str) of None \<Rightarrow> TUTORIAL | Some t \<Rightarrow> t),
           difficulty_level = level,
           duration_hours = duration,
           is_free = (case dict_get d ''is_free'' of None \<Rightarrow> True | Some x \<Rightarrow> py_bool x),
           rating = rating0, description = strip description0,
           tech_stack_match = [skill_name gap] \<rparr>"
  using assms unfolding make_resource_def
  by (simp split: sum.splits if_splits)

lemma make_resource_made:
  assumes "str_field d ''title'' [] = Inr title0" "str_field d ''url'' [] = Inr url0"
    "strip title0 \<noteq> []" "strip url0 \<noteq> []"
    "str_field d ''resource_type'' ''tutorial'' = Inr type_str"
    "duration_of L d = Inr duration"
    "str_field d ''provider'' ''Unknown'' = Inr provider0"
    "difficulty_of d gap = Inr level"
    "rating_of L (dict_get d ''rating'') = Inr rating0"
    "str_field d ''description'' [] = Inr description0"
  shows "\<exists>r. make_resource L (JObj d) gap = Inr (Some r)"
  unfolding make_resource_def by (simp add: assms)

lemma str_field_Inr:
  "str_field d k dflt = Inr v \<Longrightarrow>
     v = (case dict_get d k of Some (JStr s) \<Rightarrow> s | _ \<Rightarrow> dflt)
     \<and> (dict_get d k = None \<or> (\<exists>s. dict_get d k = Some (JStr s)))"
  unfolding str_field_def by (simp split: option.splits json.splits)

lemma str_field_raises_iff:
  "(\<exists>e. str_field d k dflt = Inl e) \<longleftrightarrow> non_string_under d k"
  by (simp add: str_field_def non_string_under_def split: option.splits json.splits)

lemma difficulty_of_raises_iff:
  "(\<exists>e. difficulty_of d gap = Inl e) \<longleftrightarrow> non_string_under d ''difficulty_level''"
  by (simp add: difficulty_of_def non_string_under_def split: option.splits json.splits)

lemma duration_of_raises_iff:
  "(\<exists>e. duration_of L d = Inl e) \<longleftrightarrow> duration_overflows L d"
  by (simp add: duration_of_def duration_overflows_def py_float_def
        split: option.splits json.splits)

lemma rating_of_raises_iff:
  "(\<exists>e. rating_of L (dict_get d ''rating'') = Inl e) \<longleftrightarrow> rating_rejected L d"
  by (simp add: rating_of_def rating_rejected_def split: option.splits json.splits)

lemma not_raises_returns: "\<not> (\<exists>e. x = Inl e) \<Longrightarrow> \<exists>v. x = Inr v"
  by (cases x) simp_all

lemma has_text_from_field:
  assumes "str_field d k [] = Inr v" "strip v \<noteq> []"
  shows "has_text d k"
proof -
  have empty: "strip [] = []" by (simp add: strip_def)
  from str_field_Inr[OF assms(1)] assms(2) empty show ?thesis
    unfolding has_text_def by (auto split: option.splits json.splits)
qed

lemma field_from_has_text:
  "has_text d k \<Longrightarrow> \<exists>v. str_field d k [] = Inr v \<and> strip v \<noteq> []"
  by (simp add: has_text_def str_field_def split: option.splits json.splits)

lemma make_resource_has_text:
  assumes "make_resource L (JObj d) gap = Inr (Some r)"
  shows "has_text d ''title'' \<and> has_text d ''url''"
  using assms by (elim make_resource_inv) (simp add: has_text_from_field)

lemma make_resource_not_raises:
  assumes "make_resource L (JObj d) gap = Inr (Some r)"
  shows "\<not> building_raises L d"
proof -
  from assms obtain type_str duration provider0 level rating0 description0 where
    "str_field d ''resource_type'' ''tutorial'' = Inr type_str"
    "duration_of L d = Inr duration"
    "str_field d ''provider'' ''Unknown'' = Inr provider0"
    "difficulty_of d gap = Inr level"
    "rating_of L (dict_get d ''rating'') = Inr rating0"
    "str_field d ''description'' [] = Inr description0"
    by (elim make_resource_inv) simp
  then show ?thesis
    using str_field_raises_iff[of d "''resource_type''" "''tutorial''"]
      str_field_raises_iff[of d "''provider''" "''Unknown''"]
      str_field_raises_iff[of d "''description''" "[]"]
      difficulty_of_raises_iff[of d gap] duration_of_raises_iff[of L d]
      rating_of_raises_iff[of L d]
    by (simp add: building_raises_def)
qed

lemma usable_item_made:
  assumes "has_text d ''title''" "has_text d ''url''" "\<not> building_raises L d"
  shows "\<exists>r. make_resource L (JObj d) gap = Inr (Some r)"
proof -
  from field_from_has_text[OF assms(1)] obtain title0 where
    1: "str_field d ''title'' [] = Inr title0" "strip title0 \<noteq> []" by blast
  from field_from_has_text[OF assms(2)] obtain url0 where
    2: "str_field d ''url'' [] = Inr url0" "strip url0 \<noteq> []" by blast
  from assms(3) have n: "\<not> non_string_under d ''resource_type''" "\<not> non_string_under d ''provider''"
    "\<not> non_string_under d ''description''" "\<not> non_string_under d ''difficulty_level''"
    "\<not> duration_overflows L d" "\<not> rating_rejected L d"
    by (simp_all add: building_raises_def)
  obtain type_str where 3: "str_field d ''resource_type'' ''tutorial'' = Inr type_str"
    using n(1) str_field_raises_iff[of d "''resource_type''" "''tutorial''"] not_raises_returns
    by blast
  obtain provider0 where 4: "str_field d ''provider'' ''Unknown'' = Inr provider0"
    using n(2) str_field_raises_iff[of d "''provider''" "''Unknown''"] not_raises_returns
    by blast
  obtain description0 where 5: "str_field d ''description'' [] = Inr description0"
    using n(3) str_field_raises_iff[of d "''description''" "[]"] not_raises_returns
    by blast
  obtain level where 6: "difficulty_of d gap = Inr level"
    using n(4) difficulty_of_raises_iff[of d gap] not_raises_returns by blast
  obtain duration where 7: "duration_of L d = Inr duration"
    using n(5) duration_of_raises_iff[of L d] not_raises_returns by blast
  obtain rating0 where 8: "rating_of L (dict_get d ''rating'') = Inr rating0"
    using n(6) rating_of_raises_iff[of L d] not_raises_returns by blast
  show ?thesis
    using make_resource_made[OF 1(1) 2(1) 1(2) 2(2) 3 7 4 6 8 5] .
qed

lemma lacks_skipped:
  assumes "lacks_title_or_url item"
  shows "make_resource L item gap \<noteq> Inr (Some r)"
proof (cases item)
  case (JObj d)
  then show ?thesis using assms make_resource_has_text[of L d gap r]
    by (auto simp: lacks_title_or_url_def)
qed (simp_all add: make_resource_def)

lemma make_resource_tech_stack:
  "make_resource L (JObj d) gap = Inr (Some r) \<Longrightarrow> tech_stack_match r = [skill_name gap]"
  by (elim make_resource_inv) simp

lemma make_resource_type:
  assumes "make_resource L (JObj d) gap = Inr (Some r)"
  shows "resource_type r =
       (case dict_get d ''resource_type'' of
          Some (JStr s) \<Rightarrow> (case ResourceType_of (lower s) of None \<Rightarrow> TUTORIAL | Some t \<Rightarrow> t)
        | _ \<Rightarrow> TUTORIAL)"
proof -
  have dflt: "ResourceType_of (lower ''tutorial'') = Some TUTORIAL"
    by (simp add: ResourceType_of_def lower_def lower_char_def)
  from assms obtain type_str where
    f: "str_field d ''resource_type'' ''tutorial'' = Inr type_str" and
    t: "resource_type r = (case ResourceType_of (lower type_str) of None \<Rightarrow> TUTORIAL | Some t \<Rightarrow> t)"
    by (elim make_resource_inv) simp
  from str_field_Inr[OF f] dflt t show ?thesis
    by (auto split: option.splits json.splits)
qed

lemma duration_of_default:
  assumes "dict_get d ''duration_hours'' = None
           \<or> (\<exists>x. dict_get d ''duration_hours'' = Some x \<and> no_number L x)"
  shows "duration_of L d = Inr (Finite 10)"
proof -
  from assms consider "dict_get d ''duration_hours'' = None"
    | x where "dict_get d ''duration_hours'' = Some x" "no_number L x"
    by auto
  then show ?thesis
  proof cases
    case 1
    then show ?thesis by (simp add: duration_of_def)
  next
    case 2
    then show ?thesis
      by (cases x) (simp_all add: duration_of_def no_number_def py_float_def)
  qed
qed

lemma make_resource_duration:
  "make_resource L (JObj d) gap = Inr (Some r) \<Longrightarrow> duration_of L d = Inr (duration_hours r)"
  by (elim make_resource_inv) simp


lemma make_resource_provider:
  assumes "make_resource L (JObj d) gap = Inr (Some r)"
  shows "provider r =
       (case dict_get d ''provider'' of
          Some (JStr s) \<Rightarrow> (if strip s = [] then ''Unknown'' else strip s)
        | _ \<Rightarrow> ''Unknown'')"
proof -
  have dflt: "strip ''Unknown'' = ''Unknown''" by (simp add: strip_def is_space_def)
  from assms obtain provider0 where
    f: "str_field d ''provider'' ''Unknown'' = Inr provider0" and
    t: "provider r = (if strip provider0 = [] then ''Unknown'' else strip provider0)"
    by (elim make_resource_inv) simp
  from str_field_Inr[OF f] dflt t show ?thesis
    by (auto split: option.splits json.splits)
qed


lemma normalize_lacks: "lacks_title_or_url item \<Longrightarrow> normalize L gap flt item = []"
  using lacks_skipped[of item L gap]
  by (auto simp: normalize_def split: sum.splits option.splits)

lemma normalize_raises: "building_raises L d \<Longrightarrow> normalize L gap flt (JObj d) = []"
  using make_resource_not_raises[of L d gap]
  by (auto simp: normalize_def split: sum.splits option.splits)

lemma normalize_member:
  assumes "r \<in> set (normalize L gap flt item)"
  shows "\<exists>d. item = JObj d \<and> make_resource L (JObj d) gap = Inr (Some r) \<and> passes_filters flt r"
proof -
  from assms have m: "make_resource L item gap = Inr (Some r)" and p: "passes_filters flt r"
    by (auto simp: normalize_def split: sum.splits option.splits if_splits)
  have "\<exists>d. item = JObj d"
    using m by (cases item) (simp_all add: make_resource_def)
  with m p show ?thesis by auto
qed

lemma not_float_gt: "\<not> float_gt a b \<Longrightarrow> a = NaN \<or> b = NaN \<or> float_ge b a"
  by (cases a; cases b) simp_all

text \<open>
  Claim C5, as amended. The normalizer returns a list for every input. An item that is
  not an object, or has no non-blank string under \<open>title\<close> or under \<open>url\<close>,
  contributes nothing: the output is the same without it. The same holds for an item
  on which building the resource raises: one whose \<open>resource_type\<close>,
  \<open>provider\<close>, \<open>description\<close> or \<open>difficulty_level\<close> is present and not a
  string, whose \<open>duration_hours\<close> is an integer too large for a \<open>float\<close>, or
  whose \<open>rating\<close> pydantic rejects. Every other object gives a resource. Every
  resource of the output is free when \<open>free_only\<close> is set, has a duration that is
  not greater than \<open>max_duration_hours\<close> (so it is at most \<open>max_duration_hours\<close>
  unless it is NaN), has one of the allowed types, carries the skill name in
  \<open>tech_stack_match\<close> and was made from an item of the input. A resource made from
  an item has type \<open>tutorial\<close> when the item's \<open>resource_type\<close> is missing or a
  string that is no name of the enum, ten hours when \<open>duration_hours\<close> is missing
  or \<open>float\<close> raises \<open>ValueError\<close> or \<open>TypeError\<close> on it, and provider
  "Unknown" when \<open>provider\<close> is missing or blank.
\<close>

theorem normalizer_contract:
  "(lacks_title_or_url item \<longrightarrow>
      convert_to_resources L (xs @ item # ys) gap flt = convert_to_resources L (xs @ ys) gap flt)
   \<and> (\<forall>d. building_raises L d
        \<longrightarrow> convert_to_resources L (xs @ JObj d # ys) gap flt
              = convert_to_resources L (xs @ ys) gap flt)
   \<and> (\<forall>d. has_text d ''title'' \<and> has_text d ''url'' \<and> \<not> building_raises L d
        \<longrightarrow> (\<exists>r. make_resource L (JObj d) gap = Inr (Some r)))
   \<and> (\<forall>r \<in> set (convert_to_resources L items gap flt).
        (free_only flt \<longrightarrow> is_free r)
        \<and> \<not> float_gt (duration_hours r) (Finite (of_int (max_duration_hours flt)))
        \<and> (duration_hours r = NaN
             \<or> float_ge (Finite (of_int (max_duration_hours flt))) (duration_hours r))
        \<and> resource_type r \<in> set (resource_types flt)
        \<and> tech_stack_match r = [skill_name gap]
        \<and> (\<exists>d. JObj d \<in> set items \<and> make_resource L (JObj d) gap = Inr (Some r)))
   \<and> (\<forall>d r. make_resource L (JObj d) gap = Inr (Some r) \<longrightarrow>
        (dict_get d ''resource_type'' = None
           \<or> (\<exists>s. dict_get d ''resource_type'' = Some (JStr s) \<and> ResourceType_of (lower s) = None)
              \<longrightarrow> resource_type r = TUTORIAL)
        \<and> (dict_get d ''duration_hours'' = None
             \<or> (\<exists>x. dict_get d ''duration_hours'' = Some x \<and> no_number L x)
              \<longrightarrow> duration_hours r = Finite 10)
        \<and> (dict_get d ''provider'' = None
             \<or> (\<exists>s. dict_get d ''provider'' = Some (JStr s) \<and> strip s = [])
              \<longrightarrow> provider r = ''Unknown'')
        \<and> tech_stack_match r = [skill_name gap])"
proof (intro conjI)
  show "lacks_title_or_url item \<longrightarrow>
      convert_to_resources L (xs @ item # ys) gap flt = convert_to_resources L (xs @ ys) gap flt"
    by (simp add: convert_to_resources_concat normalize_lacks)
next
  show "\<forall>d. building_raises L d
        \<longrightarrow> convert_to_resources L (xs @ JObj d # ys) gap flt
              = convert_to_resources L (xs @ ys) gap flt"
    by (simp add: convert_to_resources_concat normalize_raises)
next
  show "\<forall>d. has_text d ''title'' \<and> has_text d ''url'' \<and> \<not> building_raises L d
        \<longrightarrow> (\<exists>r. make_resource L (JObj d) gap = Inr (Some r))"
    using usable_item_made by blast
next
  show "\<forall>r \<in> set (convert_to_resources L items gap flt).
        (free_only flt \<longrightarrow> is_free r)
        \<and> \<not> float_gt (duration_hours r) (Finite (of_int (max_duration_hours flt)))
        \<and> (duration_hours r = NaN
             \<or> float_ge (Finite (of_int (max_duration_hours flt))) (duration_hours r))
        \<and> resource_type r \<in> set (resource_types flt)
        \<and> tech_stack_match r = [skill_name gap]
        \<and> (\<exists>d. JObj d \<in> set items \<and> make_resource L (JObj d) gap = Inr (Some r))"
  proof
    fix r assume "r \<in> set (convert_to_resources L items gap flt)"
    then obtain item where i: "item \<in> set items" and r: "r \<in> set (normalize L gap flt item)"
      by (auto simp: convert_to_resources_concat)
    from normalize_member[OF r] obtain d where d: "item = JObj d"
      and m: "make_resource L (JObj d) gap = Inr (Some r)" and p: "passes_filters flt r"
      by blast
    have t: "tech_stack_match r = [skill_name gap]" using m by (rule make_resource_tech_stack)
    have e: "\<exists>d. JObj d \<in> set items \<and> make_resource L (JObj d) gap = Inr (Some r)"
      using i d m by blast
    have f: "free_only flt \<longrightarrow> is_free r"
      and g: "\<not> float_gt (duration_hours r) (Finite (of_int (max_duration_hours flt)))"
      and ty: "resource_type r \<in> set (resource_types flt)"
      using p by (auto simp: passes_filters_def)
    have le: "duration_hours r = NaN
             \<or> float_ge (Finite (of_int (max_duration_hours flt))) (duration_hours r)"
      using not_float_gt[OF g] by simp
    from f g le ty t e
    show "(free_only flt \<longrightarrow> is_free r)
        \<and> \<not> float_gt (duration_hours r) (Finite (of_int (max_duration_hours flt)))
        \<and> (duration_hours r = NaN
             \<or> float_ge (Finite (of_int (max_duration_hours flt))) (duration_hours r))
        \<and> resource_type r \<in> set (resource_types flt)
        \<and> tech_stack_match r = [skill_name gap]
        \<and> (\<exists>d. JObj d \<in> set items \<and> make_resource L (JObj d) gap = Inr (Some r))"
      by blast
  qed
next
  show "\<forall>d r. make_resource L (JObj d) gap = Inr (Some r) \<longrightarrow>
        (dict_get d ''resource_type'' = None
           \<or> (\<exists>s. dict_get d ''resource_type'' = Some (JStr s) \<and> ResourceType_of (lower s) = None)
              \<longrightarrow> resource_type r = TUTORIAL)
        \<and> (dict_get d ''duration_hours'' = None
             \<or> (\<exists>x. dict_get d ''duration_hours'' = Some x \<and> no_number L x)
              \<longrightarrow> duration_hours r = Finite 10)
        \<and> (dict_get d ''provider'' = None
             \<or> (\<exists>s. dict_get d ''provider'' = Some (JStr s) \<and> strip s = [])
              \<longrightarrow> provider r = ''Unknown'')
        \<and> tech_stack_match r = [skill_name gap]"
  proof (intro allI impI)
    fix d r assume m: "make_resource L (JObj d) gap = Inr (Some r)"
    have a: "dict_get d ''resource_type'' = None
           \<or> (\<exists>s. dict_get d ''resource_type'' = Some (JStr s) \<and> ResourceType_of (lower s) = None)
              \<longrightarrow> resource_type r = TUTORIAL"
      using make_resource_type[OF m] by auto
    have b: "dict_get d ''duration_hours'' = None
             \<or> (\<exists>x. dict_get d ''duration_hours'' = Some x \<and> no_number L x)
              \<longrightarrow> duration_hours r = Finite 10"
    proof
      assume "dict_get d ''duration_hours'' = None
             \<or> (\<exists>x. dict_get d ''duration_hours'' = Some x \<and> no_number L x)"
      then have "duration_of L d = Inr (Finite 10)" by (rule duration_of_default)
      with make_resource_duration[OF m] show "duration_hours r = Finite 10" by simp
    qed
    have c: "dict_get d ''provider'' = None
             \<or> (\<exists>s. dict_get d ''provider'' = Some (JStr s) \<and> strip s = [])
              \<longrightarrow> provider r = ''Unknown''"
      using make_resource_provider[OF m] by auto
    have t: "tech_stack_match r = [skill_name gap]" using m by (rule make_resource_tech_stack)
    from a b c t
    show "(dict_get d ''resource_type'' = None
           \<or> (\<exists>s. dict_get d ''resource_type'' = Some (JStr s) \<and> ResourceType_of (lower s) = None)
              \<longrightarrow> resource_type r = TUTORIAL)
        \<and> (dict_get d ''duration_hours'' = None
             \<or> (\<exists>x. dict_get d ''duration_hours'' = Some x \<and> no_number L x)
              \<longrightarrow> duration_hours r = Finite 10)
        \<and> (dict_get d ''provider'' = None
             \<or> (\<exists>s. dict_get d ''provider'' = Some (JStr s) \<and> strip s = [])
              \<longrightarrow> provider r = ''Unknown'')
        \<and> tech_stack_match r = [skill_name gap]"
      by (intro conjI)
  qed
qed

lemma sloppy_item_made:
  "\<exists>r. make_resource echo_lib sloppy_item sample_gap = Inr (Some r)
        \<and> convert_to_resources echo_lib [sloppy_item] sample_gap default_filters = [r]"
  by (simp add: sloppy_item_def sample_gap_def default_filters_def echo_lib_def
        convert_to_resources_def make_resource_def str_field_def dict_get_def difficulty_of_def
        rating_of_def duration_of_def py_float_def passes_filters_def ResourceType_of_def
        lower_def lower_char_def strip_def is_space_def)

theorem normalizer_contract_witness:
  "convert_to_resources echo_lib [JObj [(''url'', JStr ''u'')], sloppy_item] sample_gap default_filters
     = convert_to_resources echo_lib [sloppy_item] sample_gap default_filters
   \<and> convert_to_resources echo_lib [null_type_item, sloppy_item] sample_gap default_filters
     = convert_to_resources echo_lib [sloppy_item] sample_gap default_filters
   \<and> (\<exists>r. convert_to_resources echo_lib [sloppy_item] sample_gap default_filters = [r]
          \<and> is_free r \<and> duration_hours r = Finite 10 \<and> resource_type r = TUTORIAL
          \<and> provider r = ''Unknown'' \<and> tech_stack_match r = [''Rust''])"
proof -
  define d where "d = [ (''title'', JStr '' The Rust Book ''), (''url'', JStr ''https://doc.rust-lang.org/book/''),
            (''resource_type'', JStr ''Podcast''), (''duration_hours'', JStr ''a few''),
            (''provider'', JStr ''  '') ]"
  define n where "n = [ (''title'', JStr ''The Rust Book''), (''url'', JStr ''https://doc.rust-lang.org/book/''),
            (''resource_type'', JNull) ]"
  have sd: "sloppy_item = JObj d" by (simp add: sloppy_item_def d_def)
  have nd: "null_type_item = JObj n" by (simp add: null_type_item_def n_def)
  from sloppy_item_made obtain r where
    m: "make_resource echo_lib (JObj d) sample_gap = Inr (Some r)" and
    c: "convert_to_resources echo_lib [sloppy_item] sample_gap default_filters = [r]"
    unfolding sd by blast
  note T = normalizer_contract[of "JObj [(''url'', JStr ''u'')]" echo_lib "[]" "[sloppy_item]"
      sample_gap default_filters "[sloppy_item]"]
  have "lacks_title_or_url (JObj [(''url'', JStr ''u'')])"
    by (simp add: lacks_title_or_url_def has_text_def dict_get_def)
  with T have skip: "convert_to_resources echo_lib [JObj [(''url'', JStr ''u'')], sloppy_item] sample_gap default_filters
     = convert_to_resources echo_lib [sloppy_item] sample_gap default_filters"
    by simp
  have "building_raises echo_lib n"
    by (simp add: building_raises_def non_string_under_def n_def dict_get_def)
  moreover from T have "\<forall>d. building_raises echo_lib d
        \<longrightarrow> convert_to_resources echo_lib ([] @ JObj d # [sloppy_item]) sample_gap default_filters
              = convert_to_resources echo_lib ([] @ [sloppy_item]) sample_gap default_filters"
    by (elim conjE)
  ultimately have skip2: "convert_to_resources echo_lib [null_type_item, sloppy_item] sample_gap default_filters
     = convert_to_resources echo_lib [sloppy_item] sample_gap default_filters"
    unfolding nd by simp
  have "r \<in> set (convert_to_resources echo_lib [sloppy_item] sample_gap default_filters)"
    by (simp add: c)
  with T have "free_only default_filters \<longrightarrow> is_free r" by blast
  then have free: "is_free r" by (simp add: default_filters_def)
  have k1: "\<exists>s. dict_get d ''resource_type'' = Some (JStr s) \<and> ResourceType_of (lower s) = None"
    by (simp add: d_def dict_get_def ResourceType_of_def lower_def lower_char_def)
  have k2: "\<exists>x. dict_get d ''duration_hours'' = Some x \<and> no_number echo_lib x"
    by (simp add: d_def dict_get_def no_number_def echo_lib_def)
  have k3: "\<exists>s. dict_get d ''provider'' = Some (JStr s) \<and> strip s = []"
    by (simp add: d_def dict_get_def strip_def is_space_def)
  from T have "\<forall>d r. make_resource echo_lib (JObj d) sample_gap = Inr (Some r) \<longrightarrow>
        (dict_get d ''resource_type'' = None
           \<or> (\<exists>s. dict_get d ''resource_type'' = Some (JStr s) \<and> ResourceType_of (lower s) = None)
              \<longrightarrow> resource_type r = TUTORIAL)
        \<and> (dict_get d ''duration_hours'' = None
             \<or> (\<exists>x. dict_get d ''duration_hours'' = Some x \<and> no_number echo_lib x)
              \<longrightarrow> duration_hours r = Finite 10)
        \<and> (dict_get d ''provider'' = None
             \<or> (\<exists>s. dict_get d ''provider'' = Some (JStr s) \<and> strip s = [])
              \<longrightarrow> provider r = ''Unknown'')
        \<and> tech_stack_match r = [skill_name sample_gap]"
    by (elim conjE)
  with m have D: "(dict_get d ''resource_type'' = None
           \<or> (\<exists>s. dict_get d ''resource_type'' = Some (JStr s) \<and> ResourceType_of (lower s) = None)
              \<longrightarrow> resource_type r = TUTORIAL)
        \<and> (dict_get d ''duration_hours'' = None
             \<or> (\<exists>x. dict_get d ''duration_hours'' = Some x \<and> no_number echo_lib x)
              \<longrightarrow> duration_hours r = Finite 10)
        \<and> (dict_get d ''provider'' = None
             \<or> (\<exists>s. dict_get d ''provider'' = Some (JStr s) \<and> strip s = [])
              \<longrightarrow> provider r = ''Unknown'')
        \<and> tech_stack_match r = [skill_name sample_gap]"
    by blast
  from D k1 have "resource_type r = TUTORIAL" by blast
  moreover from D k2 have "duration_hours r = Finite 10" by blast
  moreover from D k3 have "provider r = ''Unknown''" by blast
  moreover from D have "tech_stack_match r = [''Rust'']" by (simp add: sample_gap_def)
  ultimately show ?thesis using skip skip2 c free by simp
qed

text \<open>
  The claim as stated fails on an item whose \<open>resource_type\<close> is \<open>null\<close>:
  the item is skipped, where the claim has it made with type \<open>tutorial\<close>, as
  the same item without the key is.
\<close>

theorem null_type_skipped_counterexample:
  "convert_to_resources echo_lib [null_type_item] sample_gap default_filters = []
   \<and> (\<exists>r. convert_to_resources echo_lib
              [JObj [ (''title'', JStr ''The Rust Book''),
                      (''url'', JStr ''https://doc.rust-lang.org/book/'') ]]
              sample_gap default_filters = [r]
          \<and> resource_type r = TUTORIAL)"
  by (simp add: null_type_item_def sample_gap_def default_filters_def echo_lib_def
        convert_to_resources_def make_resource_def str_field_def dict_get_def difficulty_of_def
        rating_of_def duration_of_def py_float_def passes_filters_def ResourceType_of_def
        lower_def lower_char_def strip_def is_space_def)

text \<open>
  Two inputs at the edge of the duration filter. A duration that reads as NaN is not
  greater than the maximum, so the resource is in the output; an integer duration too
  large for a \<open>float\<close> raises \<open>OverflowError\<close>, which the duration's handler
  does not catch, so the item is skipped.
\<close>

lemma nan_duration_kept:
  "\<exists>r. convert_to_resources nan_lib [nan_item] sample_gap default_filters = [r]
        \<and> duration_hours r = NaN"
  by (simp add: nan_item_def nan_lib_def sample_gap_def default_filters_def echo_lib_def
        convert_to_resources_def make_resource_def str_field_def dict_get_def difficulty_of_def
        rating_of_def duration_of_def py_float_def passes_filters_def ResourceType_of_def
        lower_def lower_char_def strip_def is_space_def)

lemma huge_duration_skipped:
  "convert_to_resources echo_lib [huge_item] sample_gap default_filters = []"
  by (simp add: huge_item_def sample_gap_def default_filters_def echo_lib_def
        convert_to_resources_def make_resource_def str_field_def dict_get_def difficulty_of_def
        rating_of_def duration_of_def py_float_def passes_filters_def ResourceType_of_def
        lower_def lower_char_def strip_def is_space_def)



lemma judge_one_acc: "judge_one L J j r acc = acc @ judge_one L J j r []"
  by (simp add: judge_one_def Let_def split: option.splits)

lemma judge_loop_concat:
  "judge_loop L J sessions i rs acc = acc @ concat (map (tested L J sessions) (enumerate i rs))"
proof (induction rs arbitrary: i acc)
  case Nil
  then show ?case by simp
next
  case (Cons r rs)
  show ?case
    using judge_one_acc[of L J "autonomous_validate L (sessions i)" r acc]
    by (simp add: Cons.IH tested_def)
qed

lemma validate_resources_eq:
  "validate_resources L J sessions gap rs =
     concat (map (tested L J sessions) (enumerate 0 (take (validate_top_n J) rs)))
     @ drop (validate_top_n J) rs"
  by (simp add: validate_resources_def judge_loop_concat Let_def)

lemma judge_one_subset: "set (judge_one L J j r []) \<subseteq> {r}"
  by (simp add: judge_one_def Let_def split: option.splits)

lemma judge_one_fail_open: "judge_one L J None r [] = [r]"
  by (simp add: judge_one_def)

lemma judge_one_well_formed:
  "well_formed_judgement L j \<Longrightarrow>
     judge_one L J (Some j) r [] = (if verdict J (Some j) then [r] else [])"
  by (simp add: judge_one_def well_formed_judgement_def verdict_def judgement_score_def Let_def)

lemma tested_subset: "set (tested L J sessions (k, r)) \<subseteq> {r}"
  by (simp add: tested_def judge_one_subset)

lemma set_enumerate_snd: "p \<in> set (enumerate i xs) \<Longrightarrow> snd p \<in> set xs"
proof -
  assume "p \<in> set (enumerate i xs)"
  then have "fst p - i < length xs" and "xs ! (fst p - i) = snd p"
    by (auto simp: in_set_enumerate_eq)
  then show ?thesis using nth_mem by metis
qed

lemma tested_all_subset:
  "set (concat (map (tested L J sessions) (enumerate i xs))) \<subseteq> set xs"
proof
  fix x assume "x \<in> set (concat (map (tested L J sessions) (enumerate i xs)))"
  then obtain p where p: "p \<in> set (enumerate i xs)" and x: "x \<in> set (tested L J sessions p)"
    by auto
  have "x = snd p" using x tested_subset[of L J sessions "fst p" "snd p"] by auto
  then show "x \<in> set xs" using set_enumerate_snd[OF p] by simp
qed

lemma concat_map_filter:
  "(\<And>p. p \<in> set xs \<Longrightarrow> f p = (if P p then [g p] else [])) \<Longrightarrow>
     concat (map f xs) = map g (filter P xs)"
  by (induction xs) auto

lemma subseq_enumerate_filter: "subseq (map snd (filter P (enumerate i xs))) xs"
  by (induction xs arbitrary: i) auto

lemma enumerate_member:
  "k < length xs \<Longrightarrow> (k, xs ! k) \<in> set (enumerate 0 xs)"
  by (simp add: in_set_enumerate_eq)

lemma autonomous_validate_raised:
  "judge_session L s = Inl e \<Longrightarrow> autonomous_validate L s = None"
  by (simp add: autonomous_validate_def)

lemma tested_verdict:
  assumes "\<And>j. autonomous_validate L (sessions (fst p)) = Some j \<Longrightarrow> well_formed_judgement L j"
  shows "tested L J sessions p =
           (if verdict J (autonomous_validate L (sessions (fst p))) then [snd p] else [])"
proof (cases "autonomous_validate L (sessions (fst p))")
  case None
  then show ?thesis by (simp add: tested_def judge_one_fail_open verdict_def)
next
  case (Some j)
  then show ?thesis using assms[OF Some] by (simp add: tested_def judge_one_well_formed)
qed

lemma validate_fail_open:
  assumes "k < length rs"
    and "validate_top_n J \<le> k \<or> autonomous_validate L (sessions k) = None"
  shows "rs ! k \<in> set (validate_resources L J sessions gap rs)"
proof (cases "validate_top_n J \<le> k")
  case True
  then have "rs ! k = drop (validate_top_n J) rs ! (k - validate_top_n J)"
    using assms(1) by simp
  moreover have "k - validate_top_n J < length (drop (validate_top_n J) rs)"
    using assms(1) True by simp
  ultimately have "rs ! k \<in> set (drop (validate_top_n J) rs)"
    using nth_mem by metis
  then show ?thesis by (simp add: validate_resources_eq)
next
  case False
  then have none: "autonomous_validate L (sessions k) = None" using assms(2) by simp
  have lt: "k < length (take (validate_top_n J) rs)" using False assms(1) by simp
  have nth: "take (validate_top_n J) rs ! k = rs ! k" using False by simp
  have "(k, rs ! k) \<in> set (enumerate 0 (take (validate_top_n J) rs))"
    using enumerate_member[OF lt] nth by simp
  moreover have "tested L J sessions (k, rs ! k) = [rs ! k]"
    by (simp add: tested_def none judge_one_fail_open)
  ultimately have "rs ! k \<in> set (concat (map (tested L J sessions)
                      (enumerate 0 (take (validate_top_n J) rs))))"
    by force
  then show ?thesis by (simp add: validate_resources_eq)
qed

lemma validate_well_formed:
  assumes "\<forall>k < length rs. k < validate_top_n J \<longrightarrow>
             (\<forall>j. autonomous_validate L (sessions k) = Some j \<longrightarrow> well_formed_judgement L j)"
  shows "validate_resources L J sessions gap rs =
           map snd (filter (\<lambda>p. verdict J (autonomous_validate L (sessions (fst p))))
                      (enumerate 0 (take (validate_top_n J) rs)))
           @ drop (validate_top_n J) rs"
proof -
  have "concat (map (tested L J sessions) (enumerate 0 (take (validate_top_n J) rs))) =
        map snd (filter (\<lambda>p. verdict J (autonomous_validate L (sessions (fst p))))
                      (enumerate 0 (take (validate_top_n J) rs)))"
  proof (rule concat_map_filter)
    fix p assume "p \<in> set (enumerate 0 (take (validate_top_n J) rs))"
    then have "fst p < length rs" "fst p < validate_top_n J"
      by (auto simp: in_set_enumerate_eq)
    then have "\<And>j. autonomous_validate L (sessions (fst p)) = Some j \<Longrightarrow> well_formed_judgement L j"
      using assms by blast
    then show "tested L J sessions p =
           (if verdict J (autonomous_validate L (sessions (fst p))) then [snd p] else [])"
      by (rule tested_verdict)
  qed
  then show ?thesis by (simp add: validate_resources_eq)
qed

text \<open>
  What the loop of \<open>validate_resources\<close> guarantees. The result is empty on the
  empty list. It is what the first \<open>validate_top_n\<close> resources leave, followed by
  the remaining resources untouched, and every item of it is an item of the input.
  A resource beyond the first \<open>validate_top_n\<close>, and a tested resource whose
  session raised or gave no parseable judgement, is in the result. When the log lines
  go through on every parsed judgement, the tested resources kept are exactly those
  with no judgement or with a score of at least \<open>relevance_threshold\<close>, in the
  order of the input, and the result is a subsequence of the input.
\<close>

lemma validate_resources_contract:
  "validate_resources L J sessions gap [] = []
   \<and> set (validate_resources L J sessions gap rs) \<subseteq> set rs
   \<and> (\<exists>kept. validate_resources L J sessions gap rs = kept @ drop (validate_top_n J) rs
          \<and> set kept \<subseteq> set (take (validate_top_n J) rs))
   \<and> (\<forall>k < length rs.
        validate_top_n J \<le> k \<or> autonomous_validate L (sessions k) = None
          \<or> (\<exists>e. judge_session L (sessions k) = Inl e)
        \<longrightarrow> rs ! k \<in> set (validate_resources L J sessions gap rs))
   \<and> ((\<forall>k < length rs. k < validate_top_n J \<longrightarrow>
          (\<forall>j. autonomous_validate L (sessions k) = Some j \<longrightarrow> well_formed_judgement L j))
        \<longrightarrow> validate_resources L J sessions gap rs =
              map snd (filter (\<lambda>p. verdict J (autonomous_validate L (sessions (fst p))))
                         (enumerate 0 (take (validate_top_n J) rs)))
              @ drop (validate_top_n J) rs
            \<and> subseq (validate_resources L J sessions gap rs) rs)"
proof (intro conjI)
  show "validate_resources L J sessions gap [] = []"
    by (simp add: validate_resources_def)
next
  have kept: "set (concat (map (tested L J sessions) (enumerate 0 (take (validate_top_n J) rs))))
          \<subseteq> set (take (validate_top_n J) rs)"
    by (rule tested_all_subset)
  then show "\<exists>kept. validate_resources L J sessions gap rs = kept @ drop (validate_top_n J) rs
          \<and> set kept \<subseteq> set (take (validate_top_n J) rs)"
    using validate_resources_eq by blast
  have "set (take (validate_top_n J) rs) \<subseteq> set rs" by (rule set_take_subset)
  moreover have "set (drop (validate_top_n J) rs) \<subseteq> set rs" by (rule set_drop_subset)
  ultimately show "set (validate_resources L J sessions gap rs) \<subseteq> set rs"
    using kept by (auto simp: validate_resources_eq)
next
  show "\<forall>k < length rs.
        validate_top_n J \<le> k \<or> autonomous_validate L (sessions k) = None
          \<or> (\<exists>e. judge_session L (sessions k) = Inl e)
        \<longrightarrow> rs ! k \<in> set (validate_resources L J sessions gap rs)"
    using validate_fail_open autonomous_validate_raised by blast
next
  show "(\<forall>k < length rs. k < validate_top_n J \<longrightarrow>
          (\<forall>j. autonomous_validate L (sessions k) = Some j \<longrightarrow> well_formed_judgement L j))
        \<longrightarrow> validate_resources L J sessions gap rs =
              map snd (filter (\<lambda>p. verdict J (autonomous_validate L (sessions (fst p))))
                         (enumerate 0 (take (validate_top_n J) rs)))
              @ drop (validate_top_n J) rs
            \<and> subseq (validate_resources L J sessions gap rs) rs"
  proof
    assume wf: "\<forall>k < length rs. k < validate_top_n J \<longrightarrow>
          (\<forall>j. autonomous_validate L (sessions k) = Some j \<longrightarrow> well_formed_judgement L j)"
    have eq: "validate_resources L J sessions gap rs =
              map snd (filter (\<lambda>p. verdict J (autonomous_validate L (sessions (fst p))))
                         (enumerate 0 (take (validate_top_n J) rs)))
              @ drop (validate_top_n J) rs"
      using wf by (rule validate_well_formed)
    have "subseq (map snd (filter (\<lambda>p. verdict J (autonomous_validate L (sessions (fst p))))
                         (enumerate 0 (take (validate_top_n J) rs)))
              @ drop (validate_top_n J) rs)
            (take (validate_top_n J) rs @ drop (validate_top_n J) rs)"
      by (intro list_emb_append_mono subseq_enumerate_filter subseq_order.order_refl)
    then have "subseq (validate_resources L J sessions gap rs) rs"
      by (simp add: eq)
    with eq show "validate_resources L J sessions gap rs =
              map snd (filter (\<lambda>p. verdict J (autonomous_validate L (sessions (fst p))))
                         (enumerate 0 (take (validate_top_n J) rs)))
              @ drop (validate_top_n J) rs
            \<and> subseq (validate_resources L J sessions gap rs) rs"
      by blast
  qed
qed

lemma strip_fences_plain:
  "strip_fences ''{hi}'' = ''{hi}''" "strip_fences ''{lo}'' = ''{lo}''" "strip_fences ''{}'' = ''{}''"
  by (simp_all add: strip_fences_def strip_def startswith_def endswith_def is_space_def)

lemma judge_json_str_plain:
  "judge_json_str ''{hi}'' = Some ''{hi}''" "judge_json_str ''{lo}'' = Some ''{lo}''"
  "judge_json_str ''{}'' = Some ''{}''"
  by (simp_all add: judge_json_str_def strip_fences_plain str_find_def str_rfind_def slice_def)

lemma trial_judgements:
  "autonomous_validate verdict_lib (trial_sessions 0) = Some [(''relevance_score'', JFloat (Finite (9 / 10)))]"
  "autonomous_validate verdict_lib (trial_sessions (Suc 0)) = Some [(''relevance_score'', JFloat (Finite (3 / 10)))]"
  "autonomous_validate verdict_lib (trial_sessions (Suc (Suc k))) = None"
  by (simp_all add: autonomous_validate_def judge_session_def trial_sessions_def
        one_block_session_def failing_session_def judge_block_def judge_json_str_plain
        verdict_lib_def dict_get_def)

lemma validate_resources_contract_instance:
  "validate_resources verdict_lib default_judge trial_sessions sample_gap trial_resources
     = [sample_resource, sample_resource\<lparr> title := ''C'' \<rparr>]
   \<and> subseq (validate_resources verdict_lib default_judge trial_sessions sample_gap trial_resources)
        trial_resources"
proof -
  have wf: "\<forall>k < length trial_resources. k < validate_top_n default_judge \<longrightarrow>
          (\<forall>j. autonomous_validate verdict_lib (trial_sessions k) = Some j \<longrightarrow> well_formed_judgement verdict_lib j)"
  proof (intro allI impI)
    fix k j
    assume "k < length trial_resources"
      and j: "autonomous_validate verdict_lib (trial_sessions k) = Some j"
    then have "k = 0 \<or> k = Suc 0 \<or> k = Suc (Suc 0)"
      by (simp add: trial_resources_def) arith
    then show "well_formed_judgement verdict_lib j"
      using j
      by (auto simp: trial_judgements well_formed_judgement_def judgement_score_def
            score_formats_def reasoning_slices_def dict_get_def)
  qed
  have f: "map snd (filter (\<lambda>p. verdict default_judge (autonomous_validate verdict_lib (trial_sessions (fst p))))
                         (enumerate 0 (take (validate_top_n default_judge) trial_resources)))
              @ drop (validate_top_n default_judge) trial_resources
           = [sample_resource, sample_resource\<lparr> title := ''C'' \<rparr>]"
    by (simp add: default_judge_def trial_resources_def
          trial_judgements verdict_def judgement_score_def score_value_def dict_get_def)
  from validate_resources_contract[of verdict_lib default_judge trial_sessions sample_gap trial_resources] wf
  have "validate_resources verdict_lib default_judge trial_sessions sample_gap trial_resources =
              map snd (filter (\<lambda>p. verdict default_judge (autonomous_validate verdict_lib (trial_sessions (fst p))))
                         (enumerate 0 (take (validate_top_n default_judge) trial_resources)))
              @ drop (validate_top_n default_judge) trial_resources
        \<and> subseq (validate_resources verdict_lib default_judge trial_sessions sample_gap trial_resources)
            trial_resources"
    by blast
  then have e: "validate_resources verdict_lib default_judge trial_sessions sample_gap trial_resources =
              map snd (filter (\<lambda>p. verdict default_judge (autonomous_validate verdict_lib (trial_sessions (fst p))))
                         (enumerate 0 (take (validate_top_n default_judge) trial_resources)))
              @ drop (validate_top_n default_judge) trial_resources"
    and sub: "subseq (validate_resources verdict_lib default_judge trial_sessions sample_gap trial_resources)
            trial_resources"
    by blast+
  from e f have "validate_resources verdict_lib default_judge trial_sessions sample_gap trial_resources
     = [sample_resource, sample_resource\<lparr> title := ''C'' \<rparr>]"
    by (simp only:)
  with sub show ?thesis by blast
qed

text \<open>
  Claim C3 at a failing input. The session of the one resource to test does not raise
  and its judgement is parsed: a score of 0.3, below the threshold of 0.7, and
  \<open>"reasoning": null\<close>. The loop takes the branch that rejects the resource; the
  log line of that branch slices the reasoning and raises inside the \<open>try\<close>, and
  the handler meant for a failed validation appends the resource. The resource is
  kept.
\<close>

theorem low_score_null_reasoning_kept:
  "judge_session low_score_lib (one_block_session low_score_text)
     = Inr (Some [(''relevance_score'', JFloat (Finite (3 / 10))), (''reasoning'', JNull)])
   \<and> float_ge (Finite (3 / 10)) (relevance_threshold default_judge) = False
   \<and> validate_resources low_score_lib default_judge
        (\<lambda>k. one_block_session low_score_text) sample_gap [sample_resource]
     = [sample_resource]"
proof -
  have s: "judge_json_str low_score_text = Some low_score_text"
    by (simp add: judge_json_str_def strip_fences_def strip_def startswith_def endswith_def
          is_space_def str_find_def str_rfind_def slice_def low_score_text_def)
  have b: "CHR ''{'' \<in> set low_score_text" by (simp add: low_score_text_def)
  have j: "judge_session low_score_lib (one_block_session low_score_text)
     = Inr (Some [(''relevance_score'', JFloat (Finite (3 / 10))), (''reasoning'', JNull)])"
    by (simp add: judge_session_def one_block_session_def judge_block_def s b
          low_score_lib_def dict_get_def)
  then have a: "autonomous_validate low_score_lib (one_block_session low_score_text)
     = Some [(''relevance_score'', JFloat (Finite (3 / 10))), (''reasoning'', JNull)]"
    by (simp add: autonomous_validate_def)
  have t: "float_ge (Finite (3 / 10)) (relevance_threshold default_judge) = False"
    by (simp add: default_judge_def)
  have "validate_resources low_score_lib default_judge
        (\<lambda>k. one_block_session low_score_text) sample_gap [sample_resource]
     = [sample_resource]"
    by (simp add: validate_resources_def default_judge_def a judge_one_def dict_get_def
          score_formats_def score_value_def reasoning_slices_def)
  with j t show ?thesis by simp
qed

text \<open>
  Two more judgements on which a log line raises. With a score of 0.9 and
  \<open>"reasoning": null\<close> the resource is appended, the log line after the append
  raises, and the handler appends the resource a second time. With an integer score
  too large for a \<open>float\<close> the format of the score raises, and the resource is
  kept whatever the sign of the score.
\<close>

lemma high_score_null_reasoning_duplicates:
  "validate_resources
     (fixed_lib (JObj [(''relevance_score'', JFloat (Finite (9 / 10))), (''reasoning'', JNull)]))
     default_judge (\<lambda>k. one_block_session ''{}'') sample_gap [sample_resource]
   = [sample_resource, sample_resource]"
proof -
  have "autonomous_validate (fixed_lib (JObj [(''relevance_score'', JFloat (Finite (9 / 10))), (''reasoning'', JNull)]))
          (one_block_session ''{}'')
     = Some [(''relevance_score'', JFloat (Finite (9 / 10))), (''reasoning'', JNull)]"
    by (simp add: autonomous_validate_def judge_session_def one_block_session_def judge_block_def
          judge_json_str_plain fixed_lib_def dict_get_def)
  then show ?thesis
    by (simp add: validate_resources_def default_judge_def judge_one_def dict_get_def
          score_formats_def score_value_def reasoning_slices_def)
qed

lemma huge_negative_score_kept:
  "validate_resources
     (fixed_lib (JObj [(''relevance_score'', JInt (- (10 ^ 400)))]))
     default_judge (\<lambda>k. one_block_session ''{}'') sample_gap [sample_resource]
   = [sample_resource]"
proof -
  have "autonomous_validate (fixed_lib (JObj [(''relevance_score'', JInt (- (10 ^ 400)))]))
          (one_block_session ''{}'')
     = Some [(''relevance_score'', JInt (- (10 ^ 400)))]"
    by (simp add: autonomous_validate_def judge_session_def one_block_session_def judge_block_def
          judge_json_str_plain fixed_lib_def dict_get_def)
  then show ?thesis
    by (simp add: validate_resources_def default_judge_def judge_one_def dict_get_def
          score_formats_def fixed_lib_def echo_lib_def)
qed

lemma curator_fallbacks_tiers:
  "fst (curator_fallbacks L env gap flt) =
     (case parallel_api env of
        None \<Rightarrow> [StaticFallback]
      | Some (Inl e) \<Rightarrow> [SearchAPI, StaticFallback]
      | Some (Inr xs) \<Rightarrow>
          (if convert_to_resources L xs gap flt \<noteq> [] then [SearchAPI]
           else [SearchAPI, StaticFallback]))"
  by (simp add: curator_fallbacks_def Let_def split: option.splits sum.splits)

lemma curator_fallbacks_api_result:
  "parallel_api env = Some (Inr xs) \<Longrightarrow> convert_to_resources L xs gap flt \<noteq> [] \<Longrightarrow>
     curator_fallbacks L env gap flt = ([SearchAPI], Inr (convert_to_resources L xs gap flt))"
  by (simp add: curator_fallbacks_def Let_def)

lemma curate_for_skill_tier1:
  "curator_session L (task_session env) = Inr (Some final_json) \<Longrightarrow>
     curate_for_skill L env gap stack flt =
       ([Autonomous], Inr (convert_to_resources L final_json gap flt))"
  by (simp add: curate_for_skill_def)

lemma curate_for_skill_fallback_tiers:
  assumes "curator_session L (task_session env) = Inr None
           \<or> (\<exists>e. curator_session L (task_session env) = Inl e)"
  shows "\<exists>more. fst (curate_for_skill L env gap stack flt)
           = Autonomous # fst (curator_fallbacks L env gap flt) @ more
         \<and> set more \<subseteq> set (fst (curator_fallbacks L env gap flt))"
  using assms
  by (cases "curator_fallbacks L env gap flt")
     (auto simp: curate_for_skill_def split: sum.splits prod.splits)

lemma curate_for_skill_fallback_result:
  assumes "curator_session L (task_session env) = Inr None
           \<or> (\<exists>e. curator_session L (task_session env) = Inl e)"
    and "curator_fallbacks L env gap flt = (tiers, Inr resources)"
  shows "curate_for_skill L env gap stack flt = (Autonomous # tiers, Inr resources)"
  using assms by (auto simp: curate_for_skill_def)

lemma curator_session_raises: "\<exists>e. curator_session L s = Inl e"
  by (simp add: curator_session_def py_format_def curator_prompt_fields_def)

text \<open>
  Claim C2, as amended. Tier 1 is entered first. When it raised or produced no
  non-empty JSON array, the tier entered next is the search API if a client is
  configured (then it is attempted before any result is returned, and its non-empty
  normalized result is returned) and the static tier otherwise. The search-API tier
  runs only if tier 1 raised or produced no array and a client is configured; the
  static tier runs only if the search-API tier was skipped for want of a client,
  raised, or produced zero usable resources.
\<close>

theorem curator_tier_order:
  "(\<exists>later. fst (curate_for_skill L env gap stack flt) = Autonomous # later)
   \<and> (curator_session L (task_session env) = Inr None
        \<or> (\<exists>e. curator_session L (task_session env) = Inl e)
      \<longrightarrow> take 2 (fst (curate_for_skill L env gap stack flt))
            = [Autonomous, (if parallel_api env = None then StaticFallback else SearchAPI)]
          \<and> (\<forall>xs. parallel_api env = Some (Inr xs) \<and> convert_to_resources L xs gap flt \<noteq> []
                \<longrightarrow> curate_for_skill L env gap stack flt
                      = ([Autonomous, SearchAPI], Inr (convert_to_resources L xs gap flt))))
   \<and> (SearchAPI \<in> set (fst (curate_for_skill L env gap stack flt))
      \<longrightarrow> (curator_session L (task_session env) = Inr None
           \<or> (\<exists>e. curator_session L (task_session env) = Inl e))
          \<and> parallel_api env \<noteq> None)
   \<and> (StaticFallback \<in> set (fst (curate_for_skill L env gap stack flt))
      \<longrightarrow> parallel_api env = None
          \<or> (\<exists>e. parallel_api env = Some (Inl e))
          \<or> (\<exists>xs. parallel_api env = Some (Inr xs) \<and> convert_to_resources L xs gap flt = []))"
proof -
  have failed: "curator_session L (task_session env) = Inr None
        \<or> (\<exists>e. curator_session L (task_session env) = Inl e)"
    using curator_session_raises by blast
  from curate_for_skill_fallback_tiers[OF failed, of gap stack flt]
  obtain more where m: "fst (curate_for_skill L env gap stack flt)
           = Autonomous # fst (curator_fallbacks L env gap flt) @ more"
    and sub: "set more \<subseteq> set (fst (curator_fallbacks L env gap flt))"
    by blast
  have c1: "\<exists>later. fst (curate_for_skill L env gap stack flt) = Autonomous # later"
    using m by blast
  have "take 1 (fst (curator_fallbacks L env gap flt) @ more)
          = [if parallel_api env = None then StaticFallback else SearchAPI]"
    by (simp add: curator_fallbacks_tiers split: option.splits sum.splits)
  then have c2a: "take 2 (fst (curate_for_skill L env gap stack flt))
            = [Autonomous, (if parallel_api env = None then StaticFallback else SearchAPI)]"
    by (simp add: m numeral_2_eq_2)
  have c2b: "\<forall>xs. parallel_api env = Some (Inr xs) \<and> convert_to_resources L xs gap flt \<noteq> []
                \<longrightarrow> curate_for_skill L env gap stack flt
                      = ([Autonomous, SearchAPI], Inr (convert_to_resources L xs gap flt))"
  proof (intro allI impI)
    fix xs
    assume x: "parallel_api env = Some (Inr xs) \<and> convert_to_resources L xs gap flt \<noteq> []"
    then have "curator_fallbacks L env gap flt = ([SearchAPI], Inr (convert_to_resources L xs gap flt))"
      by (simp add: curator_fallbacks_api_result)
    then show "curate_for_skill L env gap stack flt
                      = ([Autonomous, SearchAPI], Inr (convert_to_resources L xs gap flt))"
      using curate_for_skill_fallback_result[OF failed] by simp
  qed
  have in_fb: "t \<in> set (fst (curate_for_skill L env gap stack flt)) \<Longrightarrow> t \<noteq> Autonomous
        \<Longrightarrow> t \<in> set (fst (curator_fallbacks L env gap flt))" for t
    using m sub by auto
  have c3: "SearchAPI \<in> set (fst (curate_for_skill L env gap stack flt))
      \<longrightarrow> (curator_session L (task_session env) = Inr None
           \<or> (\<exists>e. curator_session L (task_session env) = Inl e))
          \<and> parallel_api env \<noteq> None"
  proof
    assume "SearchAPI \<in> set (fst (curate_for_skill L env gap stack flt))"
    then have "SearchAPI \<in> set (fst (curator_fallbacks L env gap flt))"
      using in_fb by simp
    then have "parallel_api env \<noteq> None"
      by (auto simp: curator_fallbacks_tiers split: option.splits)
    with failed show "(curator_session L (task_session env) = Inr None
           \<or> (\<exists>e. curator_session L (task_session env) = Inl e))
          \<and> parallel_api env \<noteq> None"
      by blast
  qed
  have c4: "StaticFallback \<in> set (fst (curate_for_skill L env gap stack flt))
      \<longrightarrow> parallel_api env = None
          \<or> (\<exists>e. parallel_api env = Some (Inl e))
          \<or> (\<exists>xs. parallel_api env = Some (Inr xs) \<and> convert_to_resources L xs gap flt = [])"
  proof
    assume "StaticFallback \<in> set (fst (curate_for_skill L env gap stack flt))"
    then have "StaticFallback \<in> set (fst (curator_fallbacks L env gap flt))"
      using in_fb by simp
    then show "parallel_api env = None
          \<or> (\<exists>e. parallel_api env = Some (Inl e))
          \<or> (\<exists>xs. parallel_api env = Some (Inr xs) \<and> convert_to_resources L xs gap flt = [])"
      by (auto simp: curator_fallbacks_tiers split: option.splits sum.splits if_splits)
  qed
  from c1 c2a c2b c3 c4 show ?thesis by blast
qed

lemma unreachable_session_raises:
  "curator_session L (task_session unreachable_env) = Inl SessionError"
  by (simp add: curator_session_def unreachable_env_def failing_session_def)

theorem curator_tier_order_witness:
  "\<exists>r. curate_for_skill echo_lib unreachable_env sample_gap [] default_filters
          = ([Autonomous, SearchAPI], Inr [r])"
proof -
  from sloppy_item_made obtain r where
    c: "convert_to_resources echo_lib [sloppy_item] sample_gap default_filters = [r]"
    by blast
  have a: "curator_session echo_lib (task_session unreachable_env) = Inr None
        \<or> (\<exists>e. curator_session echo_lib (task_session unreachable_env) = Inl e)"
    by (simp add: unreachable_session_raises)
  have x: "parallel_api unreachable_env = Some (Inr [sloppy_item])
        \<and> convert_to_resources echo_lib [sloppy_item] sample_gap default_filters \<noteq> []"
    by (simp add: unreachable_env_def c)
  from curator_tier_order[of echo_lib unreachable_env sample_gap "[]" default_filters] a x
  have "curate_for_skill echo_lib unreachable_env sample_gap [] default_filters
          = ([Autonomous, SearchAPI],
             Inr (convert_to_resources echo_lib [sloppy_item] sample_gap default_filters))"
    by blast
  then show ?thesis by (simp add: c)
qed

text \<open>
  The claim as stated fails when no search client is configured: tier 1 raises (the
  system prompt cannot be formatted), tier 2 is not attempted, and the static tier's
  three free resources are returned.
\<close>

theorem search_tier_skipped_counterexample:
  "(\<exists>e. curator_session echo_lib (task_session no_client_env) = Inl e)
   \<and> fst (curate_for_skill echo_lib no_client_env sample_gap [] default_filters)
       = [Autonomous, StaticFallback]
   \<and> (\<exists>rs. snd (curate_for_skill echo_lib no_client_env sample_gap [] default_filters) = Inr rs
          \<and> map url rs = [''https://www.freecodecamp.org/learn/rust'',
                           ''https://www.youtube.com/results?search_query=rust+tutorial'',
                           ''https://www.coursera.org/learn/rust''])"
proof -
  obtain e where e: "curator_session echo_lib (task_session no_client_env) = Inl e"
    using curator_session_raises by blast
  have lw: "lower ''Rust'' = ''rust''" by (simp add: lower_def lower_char_def)
  have mk: "map url (convert_to_resources echo_lib (get_mock_resources ''Rust'' ''beginner'')
                      sample_gap default_filters)
            = [''https://www.freecodecamp.org/learn/rust'',
               ''https://www.youtube.com/results?search_query=rust+tutorial'',
               ''https://www.coursera.org/learn/rust'']"
    by (simp add: convert_to_resources_concat normalize_def get_mock_resources_def lw Let_def
          sample_gap_def default_filters_def echo_lib_def
          make_resource_def str_field_def dict_get_def difficulty_of_def
          rating_of_def duration_of_def py_float_def py_bool_def passes_filters_def ResourceType_of_def
          lower_def lower_char_def strip_def is_space_def)
  have fb: "curator_fallbacks echo_lib no_client_env sample_gap default_filters
            = ([StaticFallback],
               Inr (convert_to_resources echo_lib (get_mock_resources ''Rust'' ''beginner'')
                      sample_gap default_filters))"
    by (simp add: curator_fallbacks_def no_client_env_def sample_gap_def)
  have "curate_for_skill echo_lib no_client_env sample_gap [] default_filters
          = ([Autonomous, StaticFallback],
             Inr (convert_to_resources echo_lib (get_mock_resources ''Rust'' ''beginner'')
                      sample_gap default_filters))"
    using curate_for_skill_fallback_result[OF _ fb, of "[]"] e by simp
  then show ?thesis using e mk by simp
qed

lemma compile_results_keys_set:
  "fst ` set (compile_results xs d) = fst ` set d \<union> (\<lambda>p. skill_name (fst p)) ` set xs"
proof (induction xs arbitrary: d)
  case Nil
  then show ?case by simp
next
  case (Cons p xs)
  obtain gap result where p: "p = (gap, result)" by (cases p)
  show ?case by (auto simp: p Cons.IH AList.dom_update)
qed

lemma compile_results_distinct:
  "distinct (map fst d) \<Longrightarrow> distinct (map fst (compile_results xs d))"
proof (induction xs arbitrary: d)
  case Nil
  then show ?case by simp
next
  case (Cons p xs)
  obtain gap result where p: "p = (gap, result)" by (cases p)
  show ?case using Cons.prems by (simp add: p Cons.IH AList.distinct_update)
qed

lemma compile_results_keys_distinct:
  "distinct (map (\<lambda>p. skill_name (fst p)) xs) \<Longrightarrow>
   set (map fst d) \<inter> (\<lambda>p. skill_name (fst p)) ` set xs = {} \<Longrightarrow>
   map fst (compile_results xs d) = map fst d @ map (\<lambda>p. skill_name (fst p)) xs"
proof (induction xs arbitrary: d)
  case Nil
  then show ?case by simp
next
  case (Cons p xs)
  obtain gap result where p: "p = (gap, result)" by (cases p)
  define d' where "d' = AList.update (skill_name gap) (case result of Inl e \<Rightarrow> [] | Inr rs \<Rightarrow> rs) d"
  have notin: "skill_name gap \<notin> set (map fst d)" using Cons.prems(2) by (auto simp: p)
  then have keys: "map fst d' = map fst d @ [skill_name gap]"
    by (simp add: d'_def AList.update_keys)
  have dist: "distinct (map (\<lambda>p. skill_name (fst p)) xs)" using Cons.prems(1) by simp
  have disj: "set (map fst d') \<inter> (\<lambda>p. skill_name (fst p)) ` set xs = {}"
    using Cons.prems by (auto simp: keys p)
  have "compile_results (p # xs) d = compile_results xs d'" by (simp add: p d'_def)
  then show ?case using Cons.IH[OF dist disj] by (simp add: keys p)
qed

lemma compile_results_map_of:
  "map_of (compile_results xs d) =
     map_of d ++ map_of (rev (map (\<lambda>p. (skill_name (fst p), task_resources (snd p))) xs))"
proof (induction xs arbitrary: d)
  case Nil
  then show ?case by simp
next
  case (Cons p xs)
  obtain gap result where p: "p = (gap, result)" by (cases p)
  show ?case
    by (simp add: p Cons.IH AList.update_conv' task_resources_def map_add_upd_left
          map_add_assoc[symmetric])
       (simp add: map_add_def fun_eq_iff split: option.splits)
qed

lemma judge_phase_keys:
  "distinct (map fst d) \<Longrightarrow> set (map fst acc) \<inter> set (map fst d) = {} \<Longrightarrow>
   map fst (judge_phase L J sessions gaps k d acc) = map fst acc @ map fst d"
proof (induction d arbitrary: acc k)
  case Nil
  then show ?case by simp
next
  case (Cons p d)
  obtain name resources where p: "p = (name, resources)" by (cases p)
  define v where "v = (if resources \<noteq> [] then
             (case List.find (\<lambda>sg. skill_name sg = name) gaps of
                Some gap \<Rightarrow> validate_resources L J (sessions k) gap resources
              | None \<Rightarrow> resources)
           else [])"
  have notin: "name \<notin> set (map fst acc)" using Cons.prems(2) by (auto simp: p)
  then have keys: "map fst (AList.update name v acc) = map fst acc @ [name]"
    by (simp add: AList.update_keys)
  have dist: "distinct (map fst d)" using Cons.prems(1) by simp
  have disj: "set (map fst (AList.update name v acc)) \<inter> set (map fst d) = {}"
    using Cons.prems by (auto simp: keys p)
  have "judge_phase L J sessions gaps k (p # d) acc
          = judge_phase L J sessions gaps (Suc k) d (AList.update name v acc)"
    by (simp add: p v_def)
  then show ?case using Cons.IH[OF dist disj] by (simp add: keys p)
qed

lemma curate_resources_Some:
  "curate_resources L envs gaps stack (Some flt)
     = Inr (compile_results (zip gaps (task_results L envs gaps stack flt)) [])"
  by (simp add: curate_resources_def task_results_def)

lemma length_task_results: "length (task_results L envs gaps stack flt) = length gaps"
  by (simp add: task_results_def)

lemma task_results_nth:
  "i < length gaps \<Longrightarrow>
     task_results L envs gaps stack flt ! i = snd (curate_for_skill L (envs i) (gaps ! i) stack flt)"
  by (simp add: task_results_def nth_enumerate_eq)

lemma zip_names:
  "map (\<lambda>p. skill_name (fst p)) (zip gaps (task_results L envs gaps stack flt)) = map skill_name gaps"
proof -
  have "map fst (zip gaps (task_results L envs gaps stack flt)) = gaps"
    by (simp add: length_task_results)
  then have "map skill_name (map fst (zip gaps (task_results L envs gaps stack flt))) = map skill_name gaps"
    by simp
  then show ?thesis by (simp add: comp_def)
qed

lemma curate_resources_shape:
  "\<exists>d. curate_resources L envs gaps stack (Some flt) = Inr d
        \<and> distinct (map fst d) \<and> set (map fst d) = skill_name ` set gaps
        \<and> length d = card (skill_name ` set gaps)
        \<and> (distinct (map skill_name gaps) \<longrightarrow>
              map fst d = map skill_name gaps \<and> length d = length gaps
              \<and> (\<forall>i < length gaps. map_of d (skill_name (gaps ! i))
                    = Some (task_resources (snd (curate_for_skill L (envs i) (gaps ! i) stack flt)))))"
proof -
  define zs where "zs = zip gaps (task_results L envs gaps stack flt)"
  define d where "d = compile_results zs []"
  have names: "map (\<lambda>p. skill_name (fst p)) zs = map skill_name gaps"
    unfolding zs_def by (rule zip_names)
  have eq: "curate_resources L envs gaps stack (Some flt) = Inr d"
    by (simp add: curate_resources_Some d_def zs_def)
  have dist: "distinct (map fst d)"
    unfolding d_def by (rule compile_results_distinct) simp
  have "(\<lambda>p. skill_name (fst p)) ` set zs = set (map (\<lambda>p. skill_name (fst p)) zs)" by simp
  also have "\<dots> = skill_name ` set gaps" by (simp only: names) simp
  finally have img: "(\<lambda>p. skill_name (fst p)) ` set zs = skill_name ` set gaps" .
  have keys: "set (map fst d) = skill_name ` set gaps"
    using compile_results_keys_set[of zs "[]"] img by (simp add: d_def)
  have len: "length d = card (skill_name ` set gaps)"
    using distinct_card[OF dist] keys by simp
  have ordered: "map fst d = map skill_name gaps \<and> length d = length gaps
              \<and> (\<forall>i < length gaps. map_of d (skill_name (gaps ! i))
                    = Some (task_resources (snd (curate_for_skill L (envs i) (gaps ! i) stack flt))))"
    if dn: "distinct (map skill_name gaps)"
  proof -
    have dz: "distinct (map (\<lambda>p. skill_name (fst p)) zs)" using dn names by simp
    have k: "map fst d = map skill_name gaps"
      using compile_results_keys_distinct[OF dz, of "[]"] names by (simp add: d_def)
    then have l: "length d = length gaps" using length_map by metis
    have v: "map_of d (skill_name (gaps ! i))
                    = Some (task_resources (snd (curate_for_skill L (envs i) (gaps ! i) stack flt)))"
      if i: "i < length gaps" for i
    proof -
      define kvs where "kvs = map (\<lambda>p. (skill_name (fst p), task_resources (snd p))) zs"
      have m: "map_of d = map_of (rev kvs)"
        using compile_results_map_of[of zs "[]"] by (simp add: d_def kvs_def)
      have "map fst kvs = map (\<lambda>p. skill_name (fst p)) zs" by (simp add: kvs_def comp_def)
      then have dk: "distinct (map fst (rev kvs))" using dz by (simp add: rev_map[symmetric])
      have zi: "zs ! i = (gaps ! i, snd (curate_for_skill L (envs i) (gaps ! i) stack flt))"
        using i by (simp add: zs_def length_task_results task_results_nth)
      have "i < length zs" using i by (simp add: zs_def length_task_results)
      then have "zs ! i \<in> set zs" by simp
      then have "(skill_name (gaps ! i),
                  task_resources (snd (curate_for_skill L (envs i) (gaps ! i) stack flt))) \<in> set kvs"
        unfolding kvs_def zi by force
      then have "(skill_name (gaps ! i),
                  task_resources (snd (curate_for_skill L (envs i) (gaps ! i) stack flt))) \<in> set (rev kvs)"
        by simp
      from map_of_is_SomeI[OF dk this] show ?thesis by (simp add: m)
    qed
    from k l v show ?thesis by blast
  qed
  from eq dist keys len ordered show ?thesis by blast
qed

lemma analyze_returns: "\<exists>r. analyze L s input_data = Inr r"
  by (cases "analyze_body L s input_data") (simp_all add: analyze_def)

lemma analyze_body_raises: "\<exists>e. analyze_body L s input_data = Inl e"
  by (simp add: analyze_body_def log_market_insights_def
        split: sum.splits option.splits prod.splits)

lemma analyze_mock: "analyze L s input_data = Inr (generate_mock_analysis input_data)"
  using analyze_body_raises[of L s input_data] by (auto simp: analyze_def)

lemma analysis_phase_cases:
  obtains (hit) cached where "enable_cache orch"
      "get_analysis L (cache_get_fails env) (redis_store st)
         (resume_text request) (job_description request) = Some cached"
      "analysis_phase L orch env st request = (Inr cached, st)"
  | (run) "\<not> enable_cache orch
           \<or> get_analysis L (cache_get_fails env) (redis_store st)
               (resume_text request) (job_description request) = None"
      "analysis_phase L orch env st request = run_analyzer L env st request"
  by (cases "enable_cache orch";
      cases "get_analysis L (cache_get_fails env) (redis_store st)
               (resume_text request) (job_description request)")
     (auto simp: analysis_phase_def)

lemma run_analyzer_eq:
  "run_analyzer L env st request =
     (Inr (generate_mock_analysis
            \<lparr> ai_resume_text = resume_text request,
              ai_job_description = job_description request,
              ai_target_job_title = target_job_title request \<rparr>),
      st\<lparr> analyzer_runs := Suc (analyzer_runs st) \<rparr>)"
  by (simp add: run_analyzer_def analyze_mock)

lemma analysis_phase_Inr:
  "\<exists>a st1. analysis_phase L orch env st request = (Inr a, st1)
           \<and> redis_store st1 = redis_store st
           \<and> (analyzer_runs st1 = analyzer_runs st \<or> analyzer_runs st1 = Suc (analyzer_runs st))"
  by (rule analysis_phase_cases[of orch L env st request]) (simp_all add: run_analyzer_eq)

lemma process_request_after_analysis:
  assumes "analysis_phase L orch env st request = (Inr a, st1)"
  shows "process_request L orch env st request =
     (let st2 = (if enable_cache orch
                 then st1\<lparr> redis_store :=
                        cache_analysis L (cache_set_fails env) (redis_store st1)
                          (resume_text request) (job_description request) a \<rparr>
                 else st1)
      in case curate_resources L (curator_envs env) (skill_gaps a) (tech_stack a) (filters request) of
           Inl e \<Rightarrow> ((new_response env)\<lparr> analysis_result := Some a, status := FAILED \<rparr>, st2)
         | Inr curated \<Rightarrow>
             ((new_response env)\<lparr> analysis_result := Some a,
                curated_resources :=
                  (if enable_judge orch
                   then judge_phase L (judge orch) (judge_sessions env) (skill_gaps a) 0 curated []
                   else curated),
                status := COMPLETED \<rparr>, st2))"
  using assms by (simp add: process_request_def new_response_def Let_def split: sum.splits)

text \<open>
  Claim C6. \<open>analyze\<close> returns a result for every session and input. Whenever the
  body of its \<open>try\<close> raises, whatever the exception, the result is the mock
  analysis of the input, which is a function of the input alone. The mock has five
  skill gaps when the lowercased title contains "cloud" or "infrastructure";
  otherwise three when it contains "data"; otherwise two.
\<close>

theorem analyze_never_raises:
  "(\<exists>r. analyze L s input_data = Inr r)
   \<and> (\<forall>e. analyze_body L s input_data = Inl e
          \<longrightarrow> analyze L s input_data = Inr (generate_mock_analysis input_data))
   \<and> (contains (lower (ai_target_job_title input_data)) ''cloud''
        \<or> contains (lower (ai_target_job_title input_data)) ''infrastructure''
       \<longrightarrow> map skill_name (skill_gaps (generate_mock_analysis input_data))
             = [''AWS/Cloud Platforms'', ''Kubernetes'', ''Infrastructure as Code'', ''Docker'',
                ''System Performance Optimization''])
   \<and> (\<not> contains (lower (ai_target_job_title input_data)) ''cloud''
        \<and> \<not> contains (lower (ai_target_job_title input_data)) ''infrastructure''
        \<and> contains (lower (ai_target_job_title input_data)) ''data''
       \<longrightarrow> map skill_name (skill_gaps (generate_mock_analysis input_data))
             = [''SQL'', ''Python Data Science'', ''Machine Learning''])
   \<and> (\<not> contains (lower (ai_target_job_title input_data)) ''cloud''
        \<and> \<not> contains (lower (ai_target_job_title input_data)) ''infrastructure''
        \<and> \<not> contains (lower (ai_target_job_title input_data)) ''data''
       \<longrightarrow> map skill_name (skill_gaps (generate_mock_analysis input_data))
             = [''System Design'', ''Algorithms''])"
proof (intro conjI allI impI)
  show "\<exists>r. analyze L s input_data = Inr r" by (rule analyze_returns)
next
  fix e assume "analyze_body L s input_data = Inl e"
  then show "analyze L s input_data = Inr (generate_mock_analysis input_data)"
    by (simp add: analyze_def)
next
  assume "contains (lower (ai_target_job_title input_data)) ''cloud''
        \<or> contains (lower (ai_target_job_title input_data)) ''infrastructure''"
  then show "map skill_name (skill_gaps (generate_mock_analysis input_data))
             = [''AWS/Cloud Platforms'', ''Kubernetes'', ''Infrastructure as Code'', ''Docker'',
                ''System Performance Optimization'']"
    by (simp add: generate_mock_analysis_def SkillGap_of_def)
next
  assume "\<not> contains (lower (ai_target_job_title input_data)) ''cloud''
        \<and> \<not> contains (lower (ai_target_job_title input_data)) ''infrastructure''
        \<and> contains (lower (ai_target_job_title input_data)) ''data''"
  then show "map skill_name (skill_gaps (generate_mock_analysis input_data))
             = [''SQL'', ''Python Data Science'', ''Machine Learning'']"
    by (simp add: generate_mock_analysis_def SkillGap_of_def)
next
  assume "\<not> contains (lower (ai_target_job_title input_data)) ''cloud''
        \<and> \<not> contains (lower (ai_target_job_title input_data)) ''infrastructure''
        \<and> \<not> contains (lower (ai_target_job_title input_data)) ''data''"
  then show "map skill_name (skill_gaps (generate_mock_analysis input_data))
             = [''System Design'', ''Algorithms'']"
    by (simp add: generate_mock_analysis_def SkillGap_of_def)
qed

lemma lower_titles:
  "lower ''Cloud Architect'' = ''cloud architect''"
  "lower ''Data Engineer'' = ''data engineer''"
  "lower ''Senior DevOps Engineer'' = ''senior devops engineer''"
  by (simp_all add: lower_def lower_char_def)

lemma title_keywords:
  "contains ''cloud architect'' ''cloud''"
  "\<not> contains ''data engineer'' ''cloud''" "\<not> contains ''data engineer'' ''infrastructure''"
  "contains ''data engineer'' ''data''"
  "\<not> contains ''senior devops engineer'' ''cloud''"
  "\<not> contains ''senior devops engineer'' ''infrastructure''"
  "\<not> contains ''senior devops engineer'' ''data''"
  by (simp_all add: startswith_def)

theorem analyze_never_raises_witness:
  "analyze echo_lib failing_session (input_titled ''Cloud Architect'')
     = Inr (generate_mock_analysis (input_titled ''Cloud Architect''))
   \<and> length (skill_gaps (generate_mock_analysis (input_titled ''Cloud Architect''))) = 5
   \<and> length (skill_gaps (generate_mock_analysis (input_titled ''Data Engineer''))) = 3
   \<and> length (skill_gaps (generate_mock_analysis (input_titled ''Senior DevOps Engineer''))) = 2"
proof -
  have b: "analyze_body echo_lib failing_session (input_titled ''Cloud Architect'') = Inl SessionError"
    by (simp add: analyze_body_def failing_session_def)
  have t: "ai_target_job_title (input_titled x) = x" for x by (simp add: input_titled_def)
  from analyze_never_raises[of echo_lib failing_session "input_titled ''Cloud Architect''"] b
  have 1: "analyze echo_lib failing_session (input_titled ''Cloud Architect'')
     = Inr (generate_mock_analysis (input_titled ''Cloud Architect''))"
    by blast
  have h1: "contains (lower (ai_target_job_title (input_titled ''Cloud Architect''))) ''cloud''"
    by (simp only: t lower_titles title_keywords)
  from analyze_never_raises[of echo_lib failing_session "input_titled ''Cloud Architect''"] h1
  have "map skill_name (skill_gaps (generate_mock_analysis (input_titled ''Cloud Architect'')))
             = [''AWS/Cloud Platforms'', ''Kubernetes'', ''Infrastructure as Code'', ''Docker'',
                ''System Performance Optimization'']"
    by blast
  then have 2: "length (skill_gaps (generate_mock_analysis (input_titled ''Cloud Architect''))) = 5"
    using length_map[of skill_name "skill_gaps (generate_mock_analysis (input_titled ''Cloud Architect''))"]
    by simp
  have h2: "\<not> contains (lower (ai_target_job_title (input_titled ''Data Engineer''))) ''cloud''
        \<and> \<not> contains (lower (ai_target_job_title (input_titled ''Data Engineer''))) ''infrastructure''
        \<and> contains (lower (ai_target_job_title (input_titled ''Data Engineer''))) ''data''"
    by (simp only: t lower_titles title_keywords simp_thms)
  from analyze_never_raises[of echo_lib failing_session "input_titled ''Data Engineer''"] h2
  have "map skill_name (skill_gaps (generate_mock_analysis (input_titled ''Data Engineer'')))
             = [''SQL'', ''Python Data Science'', ''Machine Learning'']"
    by blast
  then have 3: "length (skill_gaps (generate_mock_analysis (input_titled ''Data Engineer''))) = 3"
    using length_map[of skill_name "skill_gaps (generate_mock_analysis (input_titled ''Data Engineer''))"]
    by simp
  have h3: "\<not> contains (lower (ai_target_job_title (input_titled ''Senior DevOps Engineer''))) ''cloud''
        \<and> \<not> contains (lower (ai_target_job_title (input_titled ''Senior DevOps Engineer''))) ''infrastructure''
        \<and> \<not> contains (lower (ai_target_job_title (input_titled ''Senior DevOps Engineer''))) ''data''"
    by (simp only: t lower_titles title_keywords simp_thms)
  from analyze_never_raises[of echo_lib failing_session "input_titled ''Senior DevOps Engineer''"] h3
  have "map skill_name (skill_gaps (generate_mock_analysis (input_titled ''Senior DevOps Engineer'')))
             = [''System Design'', ''Algorithms'']"
    by blast
  then have 4: "length (skill_gaps (generate_mock_analysis (input_titled ''Senior DevOps Engineer''))) = 2"
    using length_map[of skill_name "skill_gaps (generate_mock_analysis (input_titled ''Senior DevOps Engineer''))"]
    by simp
  from 1 2 3 4 show ?thesis by blast
qed

lemma process_request_error_message:
  "error_message (fst (process_request L orch env st request)) = None"
proof -
  obtain a st1 where a: "analysis_phase L orch env st request = (Inr a, st1)"
    using analysis_phase_Inr by blast
  show ?thesis
    by (simp add: process_request_after_analysis[OF a] new_response_def Let_def split: sum.splits)
qed

lemma process_request_null_filters:
  assumes "filters request = None"
      and "analysis_phase L orch env st request = (Inr a, st1)"
  shows "fst (process_request L orch env st request)
           = (new_response env)\<lparr> analysis_result := Some a, status := FAILED \<rparr>"
  by (simp add: process_request_after_analysis[OF assms(2)] assms(1) curate_resources_def Let_def)

text \<open>
  Claim C1 at a failing input. A request whose \<open>filters\<close> is \<open>null\<close> makes
  \<open>curate_resources\<close> raise after the analysis has been stored. The returned job
  has the status failed, keeps the analysis and the empty resource mapping, and has no
  error message.
\<close>

theorem failed_job_has_no_error_message:
  "status (fst (process_request echo_lib default_orchestrator offline_env fresh_state
                  null_filters_request)) = FAILED
   \<and> analysis_result (fst (process_request echo_lib default_orchestrator offline_env fresh_state
                  null_filters_request))
       = Some (generate_mock_analysis (input_titled ''Senior DevOps Engineer''))
   \<and> curated_resources (fst (process_request echo_lib default_orchestrator offline_env fresh_state
                  null_filters_request)) = []
   \<and> error_message (fst (process_request echo_lib default_orchestrator offline_env fresh_state
                  null_filters_request)) = None"
proof -
  have a: "analysis_phase echo_lib default_orchestrator offline_env fresh_state null_filters_request
           = (Inr (generate_mock_analysis (input_titled ''Senior DevOps Engineer'')),
              fresh_state\<lparr> analyzer_runs := Suc (analyzer_runs fresh_state) \<rparr>)"
    by (simp add: analysis_phase_def default_orchestrator_def run_analyzer_eq
          null_filters_request_def input_titled_def)
  have f: "filters null_filters_request = None" by (simp add: null_filters_request_def)
  show ?thesis
    by (simp add: process_request_null_filters[OF f a] new_response_def)
qed

lemma process_request_state:
  assumes "analysis_phase L orch env st request = (Inr a, st1)"
  shows "analysis_result (fst (process_request L orch env st request)) = Some a"
    and "analyzer_runs (snd (process_request L orch env st request)) = analyzer_runs st1"
    and "redis_store (snd (process_request L orch env st request)) =
           (if enable_cache orch
            then cache_analysis L (cache_set_fails env) (redis_store st1)
                   (resume_text request) (job_description request) a
            else redis_store st1)"
  by (simp_all add: process_request_after_analysis[OF assms] new_response_def Let_def
        split: sum.splits)

lemma get_after_cache:
  assumes "model_dump_json L v \<noteq> []" "model_load_json L (model_dump_json L v) = Some v"
  shows "get_analysis L False (cache_analysis L False store r j v) r j = Some v"
  using assms by (simp add: get_analysis_def cache_analysis_def Let_def)

lemma analysis_phase_hit:
  assumes "enable_cache orch"
    and "get_analysis L (cache_get_fails env) (redis_store st)
           (resume_text request) (job_description request) = Some cached"
  shows "analysis_phase L orch env st request = (Inr cached, st)"
  using assms by (simp add: analysis_phase_def)

text \<open>
  Claim C8. With caching enabled, a request whose resume text and job description
  have an analysis in the cache gets that analysis, and no Analyzer session is run for
  it. When the first of two requests with the same resume text and job description
  writes its analysis to the cache (the write does not fail, and the document reads
  back as the analysis written), and the second reads the cache without failure, the
  second request gets the same analysis without an Analyzer session, so that at most
  one session was run for the two. The cache key is the prefix "skill_analysis:"
  followed by the hash of resume text, a bar and job description; reading a key back
  after it was written gives the value written.
\<close>

theorem cache_hit_skips_analyzer:
  assumes "enable_cache orch"
  shows
  "(\<forall>cached. get_analysis L (cache_get_fails env) (redis_store st)
                (resume_text request) (job_description request) = Some cached
      \<longrightarrow> analysis_result (fst (process_request L orch env st request)) = Some cached
          \<and> analyzer_runs (snd (process_request L orch env st request)) = analyzer_runs st)
   \<and> (\<forall>a. \<not> cache_set_fails env \<and> \<not> cache_get_fails env'
          \<and> resume_text request' = resume_text request
          \<and> job_description request' = job_description request
          \<and> analysis_result (fst (process_request L orch env st request)) = Some a
          \<and> model_dump_json L a \<noteq> []
          \<and> model_load_json L (model_dump_json L a) = Some a
      \<longrightarrow> analysis_result (fst (process_request L orch env'
                                  (snd (process_request L orch env st request)) request'))
            = Some a
          \<and> analyzer_runs (snd (process_request L orch env'
                                  (snd (process_request L orch env st request)) request'))
            = analyzer_runs (snd (process_request L orch env st request))
          \<and> analyzer_runs (snd (process_request L orch env st request)) \<le> Suc (analyzer_runs st))
   \<and> generate_cache_key L (resume_text request) (job_description request)
       = ''skill_analysis:''
         @ sha256_hexdigest L (resume_text request @ ''|'' @ job_description request)
   \<and> (\<forall>store v. model_dump_json L v \<noteq> [] \<and> model_load_json L (model_dump_json L v) = Some v
        \<longrightarrow> get_analysis L False
              (cache_analysis L False store (resume_text request) (job_description request) v)
              (resume_text request) (job_description request) = Some v)"
proof (intro conjI allI impI)
  fix cached
  assume h: "get_analysis L (cache_get_fails env) (redis_store st)
                (resume_text request) (job_description request) = Some cached"
  have p: "analysis_phase L orch env st request = (Inr cached, st)"
    using assms h by (rule analysis_phase_hit)
  show "analysis_result (fst (process_request L orch env st request)) = Some cached"
    by (rule process_request_state(1)[OF p])
  show "analyzer_runs (snd (process_request L orch env st request)) = analyzer_runs st"
    by (rule process_request_state(2)[OF p])
next
  fix a
  assume h: "\<not> cache_set_fails env \<and> \<not> cache_get_fails env'
          \<and> resume_text request' = resume_text request
          \<and> job_description request' = job_description request
          \<and> analysis_result (fst (process_request L orch env st request)) = Some a
          \<and> model_dump_json L a \<noteq> []
          \<and> model_load_json L (model_dump_json L a) = Some a"
  define st' where "st' = snd (process_request L orch env st request)"
  obtain a0 st1 where p: "analysis_phase L orch env st request = (Inr a0, st1)"
    and runs: "analyzer_runs st1 = analyzer_runs st \<or> analyzer_runs st1 = Suc (analyzer_runs st)"
    using analysis_phase_Inr by blast
  have "a0 = a" using process_request_state(1)[OF p] h by simp
  then have store: "redis_store st' =
      cache_analysis L False (redis_store st1) (resume_text request) (job_description request) a"
    using process_request_state(3)[OF p] assms h by (simp add: st'_def)
  have "get_analysis L False (redis_store st') (resume_text request) (job_description request) = Some a"
    unfolding store using h by (simp add: get_after_cache)
  then have "get_analysis L (cache_get_fails env') (redis_store st')
               (resume_text request') (job_description request') = Some a"
    using h by simp
  then have p': "analysis_phase L orch env' st' request' = (Inr a, st')"
    using assms by (simp add: analysis_phase_hit)
  show "analysis_result (fst (process_request L orch env'
                                  (snd (process_request L orch env st request)) request'))
            = Some a"
    using process_request_state(1)[OF p'] by (simp add: st'_def)
  show "analyzer_runs (snd (process_request L orch env'
                                  (snd (process_request L orch env st request)) request'))
            = analyzer_runs (snd (process_request L orch env st request))"
    using process_request_state(2)[OF p'] by (simp add: st'_def)
  show "analyzer_runs (snd (process_request L orch env st request)) \<le> Suc (analyzer_runs st)"
    using process_request_state(2)[OF p] runs by auto
next
  show "generate_cache_key L (resume_text request) (job_description request)
       = ''skill_analysis:''
         @ sha256_hexdigest L (resume_text request @ ''|'' @ job_description request)"
    by (simp add: generate_cache_key_def)
next
  fix store v
  assume "model_dump_json L v \<noteq> [] \<and> model_load_json L (model_dump_json L v) = Some v"
  then show "get_analysis L False
              (cache_analysis L False store (resume_text request) (job_description request) v)
              (resume_text request) (job_description request) = Some v"
    by (simp add: get_after_cache)
qed

lemma mock_depends_on_title:
  "generate_mock_analysis
     \<lparr> ai_resume_text = r, ai_job_description = j, ai_target_job_title = t \<rparr>
   = generate_mock_analysis
     \<lparr> ai_resume_text = [], ai_job_description = [], ai_target_job_title = t \<rparr>"
  by (simp add: generate_mock_analysis_def)

lemma title_lib_round_trip:
  "model_dump_json title_lib (generate_mock_analysis (input_titled ''Senior DevOps Engineer'')) \<noteq> []
   \<and> model_load_json title_lib
        (model_dump_json title_lib (generate_mock_analysis (input_titled ''Senior DevOps Engineer'')))
      = Some (generate_mock_analysis (input_titled ''Senior DevOps Engineer''))"
proof -
  have c: "job_category (generate_mock_analysis (input_titled ''Senior DevOps Engineer''))
             = ''Senior DevOps Engineer''"
    by (simp add: generate_mock_analysis_def input_titled_def Let_def)
  have d: "model_dump_json title_lib = job_category"
    by (simp add: title_lib_def echo_lib_def)
  have l: "model_load_json title_lib ''Senior DevOps Engineer''
             = Some (generate_mock_analysis (input_titled ''Senior DevOps Engineer''))"
    using mock_depends_on_title[of "''3 years Python, Flask, PostgreSQL''" "''Kubernetes and CI/CD''"
            "''Senior DevOps Engineer''"]
    by (simp add: title_lib_def input_titled_def)
  show ?thesis by (simp add: d c l)
qed

theorem cache_hit_skips_analyzer_witness:
  "analysis_result (fst (process_request title_lib caching_orchestrator offline_env
       (snd (process_request title_lib caching_orchestrator offline_env fresh_state sample_request))
       sample_request))
     = Some (generate_mock_analysis (input_titled ''Senior DevOps Engineer''))
   \<and> analyzer_runs (snd (process_request title_lib caching_orchestrator offline_env
       (snd (process_request title_lib caching_orchestrator offline_env fresh_state sample_request))
       sample_request)) = 1"
proof -
  define a where "a = generate_mock_analysis (input_titled ''Senior DevOps Engineer'')"
  have c: "enable_cache caching_orchestrator" by (simp add: caching_orchestrator_def)
  have p1: "analysis_phase title_lib caching_orchestrator offline_env fresh_state sample_request
            = (Inr a, fresh_state\<lparr> analyzer_runs := Suc (analyzer_runs fresh_state) \<rparr>)"
    by (simp add: analysis_phase_def c get_analysis_def fresh_state_def run_analyzer_eq
          sample_request_def null_filters_request_def input_titled_def a_def)
  have a1: "analysis_result (fst (process_request title_lib caching_orchestrator offline_env
              fresh_state sample_request)) = Some a"
    by (rule process_request_state(1)[OF p1])
  have r1: "analyzer_runs (snd (process_request title_lib caching_orchestrator offline_env
              fresh_state sample_request)) = 1"
    using process_request_state(2)[OF p1] by (simp add: fresh_state_def)
  have h: "\<not> cache_set_fails offline_env \<and> \<not> cache_get_fails offline_env
          \<and> resume_text sample_request = resume_text sample_request
          \<and> job_description sample_request = job_description sample_request
          \<and> analysis_result (fst (process_request title_lib caching_orchestrator offline_env
                fresh_state sample_request)) = Some a
          \<and> model_dump_json title_lib a \<noteq> []
          \<and> model_load_json title_lib (model_dump_json title_lib a) = Some a"
    using a1 title_lib_round_trip by (simp add: offline_env_def a_def)
  from cache_hit_skips_analyzer[OF c, of title_lib offline_env fresh_state sample_request
         offline_env sample_request] h
  have "analysis_result (fst (process_request title_lib caching_orchestrator offline_env
       (snd (process_request title_lib caching_orchestrator offline_env fresh_state sample_request))
       sample_request)) = Some a
     \<and> analyzer_runs (snd (process_request title_lib caching_orchestrator offline_env
       (snd (process_request title_lib caching_orchestrator offline_env fresh_state sample_request))
       sample_request))
       = analyzer_runs (snd (process_request title_lib caching_orchestrator offline_env
              fresh_state sample_request))"
    by blast
  then show ?thesis using r1 by (simp add: a_def)
qed

lemma process_request_keys:
  "\<exists>a. analysis_result (fst (process_request L orch env st request)) = Some a
       \<and> fst ` set (curated_resources (fst (process_request L orch env st request)))
           \<subseteq> skill_name ` set (skill_gaps a)
       \<and> (status (fst (process_request L orch env st request)) = COMPLETED
            \<longrightarrow> fst ` set (curated_resources (fst (process_request L orch env st request)))
                  = skill_name ` set (skill_gaps a))"
proof -
  obtain a st1 where p: "analysis_phase L orch env st request = (Inr a, st1)"
    using analysis_phase_Inr by blast
  have ar: "analysis_result (fst (process_request L orch env st request)) = Some a"
    by (rule process_request_state(1)[OF p])
  show ?thesis
  proof (cases "filters request")
    case None
    have "fst (process_request L orch env st request)
           = (new_response env)\<lparr> analysis_result := Some a, status := FAILED \<rparr>"
      using None p by (rule process_request_null_filters)
    then have "curated_resources (fst (process_request L orch env st request)) = []"
      and "status (fst (process_request L orch env st request)) = FAILED"
      by (simp_all add: new_response_def)
    then show ?thesis using ar by simp
  next
    case (Some flt)
    from curate_resources_shape[of L "curator_envs env" "skill_gaps a" "tech_stack a" flt]
    obtain d where d: "curate_resources L (curator_envs env) (skill_gaps a) (tech_stack a) (Some flt) = Inr d"
      and dist: "distinct (map fst d)" and keys: "set (map fst d) = skill_name ` set (skill_gaps a)"
      by blast
    have jk: "map fst (judge_phase L (judge orch) (judge_sessions env) (skill_gaps a) 0 d [])
               = map fst d"
      using judge_phase_keys[OF dist, of "[]"] by simp
    have cur: "curated_resources (fst (process_request L orch env st request)) =
             (if enable_judge orch
              then judge_phase L (judge orch) (judge_sessions env) (skill_gaps a) 0 d []
              else d)"
      by (simp add: process_request_after_analysis[OF p] Some d Let_def new_response_def)
    have "map fst (curated_resources (fst (process_request L orch env st request))) = map fst d"
      using jk by (simp add: cur)
    then have "set (map fst (curated_resources (fst (process_request L orch env st request))))
               = skill_name ` set (skill_gaps a)"
      using keys by simp
    then have "fst ` set (curated_resources (fst (process_request L orch env st request)))
               = skill_name ` set (skill_gaps a)"
      by simp
    then show ?thesis using ar by blast
  qed
qed

text \<open>
  Claim C4, as amended. \<open>curate_resources\<close> returns a mapping with exactly one key
  for every distinct skill name of the list, and no other key. When the names are
  distinct, the keys are the names in the order of the list, their number is the
  length of the list, and each name is mapped to the list its task returned, or to the
  empty list when its task raised. The Judge phase keeps the keys. In the job that
  \<open>process_request\<close> returns, the keys of \<open>curated_resources\<close> are skill names
  of the analysis, and all of them once the job is completed.
\<close>

theorem curated_keys_are_skill_names:
  "(\<exists>d. curate_resources L envs gaps stack (Some flt) = Inr d
        \<and> distinct (map fst d) \<and> set (map fst d) = skill_name ` set gaps
        \<and> length d = card (skill_name ` set gaps)
        \<and> (distinct (map skill_name gaps) \<longrightarrow>
              map fst d = map skill_name gaps \<and> length d = length gaps
              \<and> (\<forall>i < length gaps. map_of d (skill_name (gaps ! i))
                    = Some (case snd (curate_for_skill L (envs i) (gaps ! i) stack flt) of
                              Inl e \<Rightarrow> [] | Inr resources \<Rightarrow> resources)))
        \<and> map fst (judge_phase L J sessions gaps 0 d []) = map fst d)
   \<and> (\<exists>a. analysis_result (fst (process_request L orch env st request)) = Some a
        \<and> fst ` set (curated_resources (fst (process_request L orch env st request)))
            \<subseteq> skill_name ` set (skill_gaps a)
        \<and> (status (fst (process_request L orch env st request)) = COMPLETED
             \<longrightarrow> fst ` set (curated_resources (fst (process_request L orch env st request)))
                   = skill_name ` set (skill_gaps a)))"
proof (intro conjI)
  from curate_resources_shape[of L envs gaps stack flt]
  obtain d where d: "curate_resources L envs gaps stack (Some flt) = Inr d"
    and dist: "distinct (map fst d)" and keys: "set (map fst d) = skill_name ` set gaps"
    and len: "length d = card (skill_name ` set gaps)"
    and ord: "distinct (map skill_name gaps) \<longrightarrow>
              map fst d = map skill_name gaps \<and> length d = length gaps
              \<and> (\<forall>i < length gaps. map_of d (skill_name (gaps ! i))
                    = Some (task_resources (snd (curate_for_skill L (envs i) (gaps ! i) stack flt))))"
    by blast
  have jk: "map fst (judge_phase L J sessions gaps 0 d []) = map fst d"
    using judge_phase_keys[OF dist, of "[]"] by simp
  from d dist keys len ord jk
  show "\<exists>d. curate_resources L envs gaps stack (Some flt) = Inr d
        \<and> distinct (map fst d) \<and> set (map fst d) = skill_name ` set gaps
        \<and> length d = card (skill_name ` set gaps)
        \<and> (distinct (map skill_name gaps) \<longrightarrow>
              map fst d = map skill_name gaps \<and> length d = length gaps
              \<and> (\<forall>i < length gaps. map_of d (skill_name (gaps ! i))
                    = Some (case snd (curate_for_skill L (envs i) (gaps ! i) stack flt) of
                              Inl e \<Rightarrow> [] | Inr resources \<Rightarrow> resources)))
        \<and> map fst (judge_phase L J sessions gaps 0 d []) = map fst d"
    unfolding task_resources_def by blast
next
  show "\<exists>a. analysis_result (fst (process_request L orch env st request)) = Some a
        \<and> fst ` set (curated_resources (fst (process_request L orch env st request)))
            \<subseteq> skill_name ` set (skill_gaps a)
        \<and> (status (fst (process_request L orch env st request)) = COMPLETED
             \<longrightarrow> fst ` set (curated_resources (fst (process_request L orch env st request)))
                   = skill_name ` set (skill_gaps a))"
    by (rule process_request_keys)
qed

lemma broken_task_raises:
  "snd (curate_for_skill L broken_env gap stack flt) = Inl SessionError"
  by (simp add: curate_for_skill_def curator_session_def curator_fallbacks_def broken_env_def
        failing_session_def)

theorem curated_keys_are_skill_names_witness:
  "\<exists>d. curate_resources echo_lib two_envs two_gaps [] (Some default_filters) = Inr d
        \<and> map fst d = [''Rust'', ''Go''] \<and> map_of d ''Go'' = Some []"
proof -
  have dn: "distinct (map skill_name two_gaps)"
    by (simp add: two_gaps_def sample_gap_def)
  note T = conjunct1[OF curated_keys_are_skill_names[of echo_lib two_envs two_gaps "[]"
      default_filters default_judge "\<lambda>k i. failing_session"]]
  from T obtain d where B:
    "curate_resources echo_lib two_envs two_gaps [] (Some default_filters) = Inr d
        \<and> distinct (map fst d) \<and> set (map fst d) = skill_name ` set two_gaps
        \<and> length d = card (skill_name ` set two_gaps)
        \<and> (distinct (map skill_name two_gaps) \<longrightarrow>
              map fst d = map skill_name two_gaps \<and> length d = length two_gaps
              \<and> (\<forall>i < length two_gaps. map_of d (skill_name (two_gaps ! i))
                    = Some (case snd (curate_for_skill echo_lib (two_envs i) (two_gaps ! i) []
                                        default_filters) of
                              Inl e \<Rightarrow> [] | Inr resources \<Rightarrow> resources)))
        \<and> map fst (judge_phase echo_lib default_judge (\<lambda>k i. failing_session) two_gaps 0 d [])
            = map fst d"
    by (rule exE)
  from B have d: "curate_resources echo_lib two_envs two_gaps [] (Some default_filters) = Inr d"
    by (rule conjunct1)
  from B dn have k: "map fst d = map skill_name two_gaps"
    and v: "\<forall>i < length two_gaps. map_of d (skill_name (two_gaps ! i))
                    = Some (case snd (curate_for_skill echo_lib (two_envs i) (two_gaps ! i) []
                                        default_filters) of
                              Inl e \<Rightarrow> [] | Inr resources \<Rightarrow> resources)"
    by blast+
  have "Suc 0 < length two_gaps" by (simp add: two_gaps_def)
  with v have "map_of d (skill_name (two_gaps ! Suc 0))
                    = Some (case snd (curate_for_skill echo_lib (two_envs (Suc 0)) (two_gaps ! Suc 0) []
                                        default_filters) of
                              Inl e \<Rightarrow> [] | Inr resources \<Rightarrow> resources)"
    by blast
  moreover have "two_envs (Suc 0) = broken_env" by (simp add: two_envs_def)
  moreover have "skill_name (two_gaps ! Suc 0) = ''Go''" by (simp add: two_gaps_def)
  ultimately have "map_of d ''Go'' = Some []" by (simp add: broken_task_raises)
  moreover have "map fst d = [''Rust'', ''Go'']"
    using k by (simp add: two_gaps_def sample_gap_def)
  ultimately show ?thesis using d by (intro exI[of _ d]) simp
qed

text \<open>
  The claim as stated fails on a list that names a skill twice: two skill gaps give
  one key.
\<close>

theorem duplicate_skill_counterexample:
  "\<exists>d. curate_resources echo_lib (\<lambda>i. unreachable_env) [sample_gap, sample_gap] []
          (Some default_filters) = Inr d
        \<and> length d = 1"
proof -
  from curate_resources_shape[of echo_lib "\<lambda>i. unreachable_env" "[sample_gap, sample_gap]" "[]"
         default_filters]
  obtain d where "curate_resources echo_lib (\<lambda>i. unreachable_env) [sample_gap, sample_gap] []
          (Some default_filters) = Inr d"
    and "length d = card (skill_name ` set [sample_gap, sample_gap])"
    by blast
  then show ?thesis by auto
qed

end
